theory Spec2Isabelle
  imports Complex_Main
begin

section \<open>JavaScript values used by the application\<close>

text \<open>
  A JavaScript number is an IEEE double: a finite value, one of the two infinities, or NaN.
  The application never computes with coordinates, it only classifies and stores them, so
  the finite payload is a real number.
\<close>

datatype jsnum = Finite real | PosInfinity | NegInfinity | NaN

text \<open>A value of type \<open>any\<close>: a number, or a value of some other runtime type.\<close>

datatype jsval = Num jsnum | NotNum

fun isNaN :: "jsnum \<Rightarrow> bool" where
  "isNaN NaN = True"
| "isNaN _ = False"

text \<open>\<open>typeof val === 'number' && !isNaN(val)\<close>\<close>

fun isValidCoord :: "jsval \<Rightarrow> bool" where
  "isValidCoord (Num x) = (\<not> isNaN x)"
| "isValidCoord NotNum = False"

text \<open>A validated coordinate as the number it is (the value is never read otherwise).\<close>

fun the_num :: "jsval \<Rightarrow> jsnum" where
  "the_num (Num x) = x"
| "the_num NotNum = NaN"

text \<open>\<open>Number.prototype.toString\<close> on a non-negative integer (the value of \<open>Date.now()\<close>).\<close>

definition digit_char :: "nat \<Rightarrow> char" where
  "digit_char d = ''0123456789'' ! d"

fun toString :: "nat \<Rightarrow> string" where
  "toString n = (if n < 10 then [digit_char n] else toString (n div 10) @ [digit_char (n mod 10)])"

declare toString.simps [simp del]

text \<open>
  \<open>String.prototype.trim\<close> strips the code units that ECMAScript calls WhiteSpace or
  LineTerminator from both ends: U+0009 to U+000D, U+0020, U+00A0, U+1680, U+2000 to
  U+200A, U+2028, U+2029, U+202F, U+205F, U+3000 and U+FEFF. A character of a string of
  the model stands for the code unit of its number, U+0000 to U+00FF; of these, the tab,
  the line feed, the vertical tab, the form feed, the carriage return, the space and the
  no-break space U+00A0 are stripped.
\<close>

definition js_whitespace :: "nat \<Rightarrow> bool" where
  "js_whitespace u =
     (u \<in> set [0x09, 0x0A, 0x0B, 0x0C, 0x0D, 0x20, 0xA0, 0x1680, 0x2028, 0x2029, 0x202F, 0x205F,
                0x3000, 0xFEFF]
      \<or> (0x2000 \<le> u \<and> u \<le> 0x200A))"

definition is_space :: "char \<Rightarrow> bool" where
  "is_space c = js_whitespace (of_char c)"

definition trim :: "string \<Rightarrow> string" where
  "trim s = rev (dropWhile is_space (rev (dropWhile is_space s)))"

text \<open>\<open>String.prototype.includes\<close>: the pattern occurs as a contiguous substring.\<close>

fun starts_with :: "string \<Rightarrow> string \<Rightarrow> bool" where
  "starts_with s [] = True"
| "starts_with [] (p # ps) = False"
| "starts_with (c # cs) (p # ps) = (c = p \<and> starts_with cs ps)"

fun str_includes :: "string \<Rightarrow> string \<Rightarrow> bool" where
  "str_includes [] pat = (pat = [])"
| "str_includes (c # cs) pat = (starts_with (c # cs) pat \<or> str_includes cs pat)"

text \<open>\<open>xs.slice(-n)\<close>: the last \<open>n\<close> elements, all of them when there are fewer.\<close>

definition slice_last :: "nat \<Rightarrow> 'a list \<Rightarrow> 'a list" where
  "slice_last n xs = drop (length xs - n) xs"

text \<open>\<open>xs.slice(0, e)\<close>: a negative end counts from the end of the array.\<close>

definition slice_to :: "int \<Rightarrow> 'a list \<Rightarrow> 'a list" where
  "slice_to e xs = (if e < 0 then take (nat (int (length xs) + e)) xs else take (nat e) xs)"

text \<open>\<open>xs[i]\<close>: \<open>undefined\<close> out of range.\<close>

definition index_at :: "'a list \<Rightarrow> int \<Rightarrow> 'a option" where
  "index_at xs i = (if 0 \<le> i \<and> i < int (length xs) then Some (xs ! nat i) else None)"

section \<open>The AI gateway (services/geminiService.ts)\<close>

text \<open>A thrown value, as far as \<open>withRetry\<close> inspects it: \<open>error?.message\<close> and \<open>error?.status\<close>.\<close>

record js_error =
  message :: "string option"
  status :: "int option"

definition isRateLimited :: "js_error \<Rightarrow> bool" where
  "isRateLimited error =
     ((case message error of Some m \<Rightarrow> str_includes m ''429'' | None \<Rightarrow> False)
      \<or> status error = Some 429)"

definition isServerError :: "js_error \<Rightarrow> bool" where
  "isServerError error = (case status error of Some st \<Rightarrow> 500 \<le> st \<and> st \<le> 504 | None \<Rightarrow> False)"

text \<open>
  The retry loop of \<open>withRetry\<close>. The wrapped operation is given by its outcomes:
  \<open>fn k\<close> is what its invocation at attempt \<open>k\<close> does (\<open>Inl\<close>: it throws). \<open>rnd k\<close> is the
  value of \<open>Math.random()\<close> drawn at attempt \<open>k\<close>. The loop returns how the promise settles
  (\<open>Inl lastError\<close>: rejected, with \<open>None\<close> for \<open>undefined\<close>), the number of invocations of
  the operation, and the delays waited for, in order.
\<close>

function withRetry_loop ::
  "(nat \<Rightarrow> js_error + 'a) \<Rightarrow> (nat \<Rightarrow> real) \<Rightarrow> nat \<Rightarrow> real \<Rightarrow> nat \<Rightarrow> js_error option
     \<Rightarrow> (js_error option + 'a) \<times> nat \<times> real list" where
  "withRetry_loop fn rnd maxRetries baseDelay attempt lastError =
     (if attempt \<le> maxRetries then
        (case fn attempt of
           Inr v \<Rightarrow> (Inr v, 1, [])
         | Inl error \<Rightarrow>
             if (isRateLimited error \<or> isServerError error) \<and> attempt < maxRetries then
               (case withRetry_loop fn rnd maxRetries baseDelay (attempt + 1) (Some error) of
                  (r, n, ds) \<Rightarrow> (r, n + 1, (baseDelay * 3 ^ attempt + rnd attempt * 3000) # ds))
             else (Inl (Some error), 1, []))
      else (Inl lastError, 0, []))"
  by pat_completeness auto
termination
  by (relation "measure (\<lambda>(fn, rnd, maxRetries, baseDelay, attempt, lastError). Suc maxRetries - attempt)") auto

declare withRetry_loop.simps [simp del]

definition withRetry ::
  "(nat \<Rightarrow> js_error + 'a) \<Rightarrow> (nat \<Rightarrow> real) \<Rightarrow> nat \<Rightarrow> real
     \<Rightarrow> (js_error option + 'a) \<times> nat \<times> real list" where
  "withRetry fn rnd maxRetries baseDelay = withRetry_loop fn rnd maxRetries baseDelay 0 None"

text \<open>The default arguments \<open>maxRetries = 4, baseDelay = 3000\<close>, which every caller uses.\<close>

definition withRetry_default ::
  "(nat \<Rightarrow> js_error + 'a) \<Rightarrow> (nat \<Rightarrow> real) \<Rightarrow> (js_error option + 'a) \<times> nat \<times> real list" where
  "withRetry_default fn rnd = withRetry fn rnd 4 3000"

text \<open>
  The delay before the retry that follows attempt \<open>attempt\<close>, and whether the operation's
  failure at attempt \<open>k\<close> is one the loop retries (a rate limit or a server error).
\<close>

definition retry_delay :: "(nat \<Rightarrow> real) \<Rightarrow> real \<Rightarrow> nat \<Rightarrow> real" where
  "retry_delay rnd baseDelay attempt = baseDelay * 3 ^ attempt + rnd attempt * 3000"

definition retryable :: "(nat \<Rightarrow> js_error + 'a) \<Rightarrow> nat \<Rightarrow> bool" where
  "retryable fn k = (case fn k of Inl e \<Rightarrow> isRateLimited e \<or> isServerError e | Inr v \<Rightarrow> False)"

text \<open>
  \<open>getLocationSummary\<close>: \<open>generateContent k\<close> is the outcome of the \<open>k\<close>-th request to the model,
  \<open>Inr text\<close> carrying \<open>response.text\<close> (\<open>None\<close> for \<open>undefined\<close>). The wrapped operation returns
  \<open>response.text?.trim() || `Welcome to ${placeName}!`\<close>, and the \<open>catch\<close> returns the same
  fallback.
\<close>

definition welcome_to :: "string \<Rightarrow> string" where
  "welcome_to placeName = ''Welcome to '' @ placeName @ ''!''"

definition summary_text :: "string \<Rightarrow> string option \<Rightarrow> string" where
  "summary_text placeName text =
     (case text of
        None \<Rightarrow> welcome_to placeName
      | Some t \<Rightarrow> if trim t = [] then welcome_to placeName else trim t)"

definition getLocationSummary ::
  "(nat \<Rightarrow> js_error + string option) \<Rightarrow> (nat \<Rightarrow> real) \<Rightarrow> string \<Rightarrow> js_error option + string" where
  "getLocationSummary generateContent rnd placeName =
     (case fst (withRetry_default (\<lambda>k. map_sum (\<lambda>e. e) (summary_text placeName) (generateContent k)) rnd) of
        Inr s \<Rightarrow> Inr s
      | Inl e \<Rightarrow> Inr (welcome_to placeName))"

section \<open>Application state (App.tsx)\<close>

datatype role = User | Assistant

text \<open>\<open>GroundingSource\<close> is \<open>{title, uri}\<close>; \<open>LocationResult\<close> is \<open>{title, uri, latitude?, longitude?}\<close>.\<close>

datatype GroundingSource = GroundingSource string string

datatype LocationResult = LocationResult string string "jsnum option" "jsnum option"

text \<open>The field \<open>id\<close> of a message is \<open>msg_id\<close> here, \<open>id\<close> being the identity function of HOL.\<close>

record Message =
  msg_id :: string
  role :: role
  content :: string
  timestamp :: nat
  sources :: "GroundingSource list option"
  locationData :: "LocationResult list option"

record UserLocation =
  latitude :: jsnum
  longitude :: jsnum

record VisualLandmark =
  shortCaption :: string
  richCaption :: string
  imageUrl :: string
  sourceUri :: "string option"

record NavLocation =
  name :: string
  lat :: jsnum
  lng :: jsnum

text \<open>
  The component's state: one field for each \<open>useState\<close> cell, and \<open>activeSessionId\<close> for the
  \<open>useRef\<close> counter.
\<close>

record app_state =
  messages :: "Message list"
  input :: string
  searchQuery :: string
  isLoading :: bool
  isGalleryLoading :: bool
  focalLocation :: "UserLocation option"
  mapCenter :: "jsnum \<times> jsnum"
  mapZoom :: nat
  currentLocationName :: string
  markers :: "LocationResult list"
  galleryImages :: "VisualLandmark list"
  suggestedQuestions :: "string list"
  suggestedAlternatives :: "string list"
  seenHistory :: "string list"
  navHistory :: "NavLocation list"
  historyIndex :: int
  activeSessionId :: nat

text \<open>The state of the first render; \<open>now\<close> is the value of \<open>Date.now()\<close> then.\<close>

definition initial_state :: "nat \<Rightarrow> app_state" where
  "initial_state now =
     \<lparr> messages = [\<lparr> msg_id = ''1'', role = Assistant,
           content = ''Welcome to GeoSlop. I have initiated a swarm capture to gather real-world photos for you. Where shall we go?'',
           timestamp = now, sources = None, locationData = None \<rparr>],
       input = [],
       searchQuery = [],
       isLoading = False,
       isGalleryLoading = False,
       focalLocation = None,
       mapCenter = (Finite 47.4517, Finite (-122.4631)),
       mapZoom = 10,
       currentLocationName = ''Vashon Island'',
       markers = [],
       galleryImages = [],
       suggestedQuestions = [],
       suggestedAlternatives = [],
       seenHistory = [''Vashon Island'', ''Petra''],
       navHistory = [\<lparr> name = ''Vashon Island'', lat = Finite 47.4517, lng = Finite (-122.4631) \<rparr>],
       historyIndex = 0,
       activeSessionId = 0 \<rparr>"

text \<open>
  What \<open>queryLocation\<close> resolves to, \<open>{text, sources, locationData}\<close>, and what \<open>geocode\<close>
  resolves to when it is not \<open>null\<close>, \<open>{name?, lat?, lng?, alternatives?}\<close> (a missing field
  is \<open>None\<close>, a missing or non-numeric coordinate \<open>NotNum\<close>).
\<close>

datatype QueryResponse = QueryResponse string "GroundingSource list" "LocationResult list"

datatype GeocodeResponse = GeocodeResponse "string option" jsval jsval "string list option"

section \<open>Effects\<close>

text \<open>The requests the component sends to the AI gateway.\<close>

datatype request =
    ReqVisualKeywords string
  | ReqPertinentQuestions string nat
  | ReqLocationSummary string
  | ReqReverseGeocode jsnum jsnum
  | ReqGeocode string
  | ReqQueryLocation string "UserLocation option"
  | ReqDynamicCoolLocation "string list"

text \<open>
  Every effect a handler has on the component, in the order the source performs them. A
  state setter called with a value carries the value, computed from the render the handler
  closed over. A setter called with an updater function (\<open>setMessages(prev => ...)\<close>,
  \<open>setSeenHistory(prev => ...)\<close>) is an effect of its own, applied to the state current at
  that moment. \<open>IncActiveSessionId\<close> is \<open>activeSessionId.current++\<close>; \<open>Call\<close> starts a
  request to the gateway; \<open>PreventDefault\<close> is \<open>e.preventDefault()\<close>.
\<close>

datatype action =
    SetCurrentLocationName string
  | SetSearchQuery string
  | SetSuggestedAlternatives "string list"
  | SetMapCenter jsnum jsnum
  | SetMapZoom nat
  | SetFocalLocation UserLocation
  | SetGalleryImages "VisualLandmark list"
  | SetSuggestedQuestions "string list"
  | SetIsGalleryLoading bool
  | SetIsLoading bool
  | SetNavHistory "NavLocation list"
  | SetHistoryIndex int
  | SetInput string
  | SetMarkers "LocationResult list"
  | AppendMessage Message
  | MapMessageContent string string
  | FilterOutMessage string
  | AppendSeenHistory string
  | IncActiveSessionId
  | Call request
  | PreventDefault

text \<open>\<open>prev.map(m => m.id === id ? {...m, content: c} : m)\<close>\<close>

definition map_content :: "string \<Rightarrow> string \<Rightarrow> Message list \<Rightarrow> Message list" where
  "map_content i c prev = map (\<lambda>m. if msg_id m = i then m\<lparr>content := c\<rparr> else m) prev"

fun apply_action :: "action \<Rightarrow> app_state \<Rightarrow> app_state" where
  "apply_action (SetCurrentLocationName n) s = s\<lparr>currentLocationName := n\<rparr>"
| "apply_action (SetSearchQuery q) s = s\<lparr>searchQuery := q\<rparr>"
| "apply_action (SetSuggestedAlternatives xs) s = s\<lparr>suggestedAlternatives := xs\<rparr>"
| "apply_action (SetMapCenter x y) s = s\<lparr>mapCenter := (x, y)\<rparr>"
| "apply_action (SetMapZoom z) s = s\<lparr>mapZoom := z\<rparr>"
| "apply_action (SetFocalLocation l) s = s\<lparr>focalLocation := Some l\<rparr>"
| "apply_action (SetGalleryImages xs) s = s\<lparr>galleryImages := xs\<rparr>"
| "apply_action (SetSuggestedQuestions xs) s = s\<lparr>suggestedQuestions := xs\<rparr>"
| "apply_action (SetIsGalleryLoading b) s = s\<lparr>isGalleryLoading := b\<rparr>"
| "apply_action (SetIsLoading b) s = s\<lparr>isLoading := b\<rparr>"
| "apply_action (SetNavHistory h) s = s\<lparr>navHistory := h\<rparr>"
| "apply_action (SetHistoryIndex i) s = s\<lparr>historyIndex := i\<rparr>"
| "apply_action (SetInput t) s = s\<lparr>input := t\<rparr>"
| "apply_action (SetMarkers ms) s = s\<lparr>markers := ms\<rparr>"
| "apply_action (AppendMessage m) s = s\<lparr>messages := messages s @ [m]\<rparr>"
| "apply_action (MapMessageContent i c) s = s\<lparr>messages := map_content i c (messages s)\<rparr>"
| "apply_action (FilterOutMessage i) s = s\<lparr>messages := filter (\<lambda>m. msg_id m \<noteq> i) (messages s)\<rparr>"
| "apply_action (AppendSeenHistory n) s = s\<lparr>seenHistory := slice_last 20 (seenHistory s) @ [n]\<rparr>"
| "apply_action IncActiveSessionId s = s\<lparr>activeSessionId := activeSessionId s + 1\<rparr>"
| "apply_action (Call r) s = s"
| "apply_action PreventDefault s = s"

text \<open>The state after a sequence of effects.\<close>

definition run :: "app_state \<Rightarrow> action list \<Rightarrow> app_state" where
  "run s acts = foldl (\<lambda>st a. apply_action a st) s acts"

text \<open>The effects that write a state cell or the session counter, and those that reach the gateway.\<close>

fun is_call :: "action \<Rightarrow> bool" where
  "is_call (Call r) = True"
| "is_call _ = False"

fun is_mutation :: "action \<Rightarrow> bool" where
  "is_mutation (Call r) = False"
| "is_mutation PreventDefault = False"
| "is_mutation _ = True"

fun is_SetIsLoading :: "action \<Rightarrow> bool" where
  "is_SetIsLoading (SetIsLoading b) = True"
| "is_SetIsLoading _ = False"

text \<open>The identifiers of the messages a sequence of effects appends to the transcript, in order.\<close>

fun appended_ids :: "action list \<Rightarrow> string list" where
  "appended_ids [] = []"
| "appended_ids (AppendMessage m # acts) = msg_id m # appended_ids acts"
| "appended_ids (a # acts) = appended_ids acts"

section \<open>Handlers (App.tsx)\<close>

text \<open>
  An \<open>async\<close> handler is modelled in two parts: the effects it performs up to its \<open>await\<close>,
  and the effects of its continuation once the awaited request has settled (\<open>_resume\<close>,
  taking how the request settled: \<open>Inl\<close> rejected, \<open>Inr\<close> fulfilled). In between, other
  handlers run. The argument \<open>cl\<close> is the state of the render the handler closed over: it is
  where the handler reads \<open>navHistory\<close>, \<open>historyIndex\<close>, \<open>isLoading\<close>, \<open>searchQuery\<close>,
  \<open>input\<close>, \<open>focalLocation\<close> and \<open>seenHistory\<close>. \<open>clock k\<close> is the value of the \<open>k\<close>-th
  \<open>Date.now()\<close> the part evaluates.
\<close>

text \<open>
  \<open>updateGalleryAndQuestions\<close> up to \<open>await Promise.all\<close>. Called in state \<open>s\<close>, it captures
  \<open>sessionId = ++activeSessionId.current\<close>, which is \<open>new_sessionId s\<close>.
\<close>

definition new_sessionId :: "app_state \<Rightarrow> nat" where
  "new_sessionId s = activeSessionId s + 1"

definition updateGalleryAndQuestions :: "string \<Rightarrow> action list" where
  "updateGalleryAndQuestions placeName =
     [IncActiveSessionId, SetGalleryImages [], SetIsGalleryLoading True, SetSuggestedQuestions [],
      Call (ReqVisualKeywords placeName), Call (ReqPertinentQuestions placeName 4)]"

text \<open>
  Its continuation, for the captured \<open>sessionId\<close>, run in state \<open>s\<close> (where it reads
  \<open>activeSessionId.current\<close>), with the outcome of \<open>Promise.all\<close>. The \<open>finally\<close> block runs on
  every path, the early \<open>return\<close> included. (The scroll reset scheduled on success touches
  no state and is left out.)
\<close>

definition updateGalleryAndQuestions_resume ::
  "nat \<Rightarrow> app_state \<Rightarrow> (js_error option + VisualLandmark list \<times> string list) \<Rightarrow> action list" where
  "updateGalleryAndQuestions_resume sessionId s fetched =
     (case fetched of
        Inr (landmarks, questions) \<Rightarrow>
          if sessionId \<noteq> activeSessionId s then []
          else [SetSuggestedQuestions questions, SetGalleryImages landmarks]
      | Inl e \<Rightarrow> [])
     @ (if sessionId = activeSessionId s then [SetIsGalleryLoading False] else [])"

text \<open>
  \<open>jumpTo\<close> up to \<open>await getLocationSummary\<close>. Its \<open>warpingId\<close> is \<open>toString (clock 0)\<close>.
  (When it rejects the coordinates, the copy in \<open>src/unnamed/part_000\<close> logs a warning
  first; the one in \<open>src/App.tsx\<close> returns at once.)
\<close>

definition jumpTo :: "app_state \<Rightarrow> (nat \<Rightarrow> nat) \<Rightarrow> string \<Rightarrow> jsnum \<Rightarrow> jsnum \<Rightarrow> bool \<Rightarrow> action list" where
  "jumpTo cl clock pname plat plng isNavigating =
     (if \<not> isValidCoord (Num plat) \<or> \<not> isValidCoord (Num plng) then []
      else
        [SetCurrentLocationName pname,
         SetSearchQuery pname,
         SetSuggestedAlternatives [],
         SetMapCenter plat plng,
         SetMapZoom 16,
         SetFocalLocation \<lparr> latitude = plat, longitude = plng \<rparr>,
         SetGalleryImages [],
         AppendMessage \<lparr> msg_id = toString (clock 0), role = Assistant,
           content = ''Warping to '' @ pname @ ''...'', timestamp = clock 1,
           sources = None, locationData = None \<rparr>,
         SetIsGalleryLoading True]
        @ updateGalleryAndQuestions pname
        @ [SetIsLoading True]
        @ (if \<not> isNavigating then
             (let newHistory = slice_to (historyIndex cl + 1) (navHistory cl)
                                 @ [\<lparr> name = pname, lat = plat, lng = plng \<rparr>]
              in [SetNavHistory newHistory, SetHistoryIndex (int (length newHistory) - 1)])
           else [])
        @ [Call (ReqLocationSummary pname)])"

text \<open>
  The continuation of \<open>jumpTo\<close> after the summary request settled: the effects of the
  \<open>try\<close>/\<open>catch\<close>/\<open>finally\<close>, and how the promise of \<open>jumpTo\<close> itself settles.
\<close>

definition jumpTo_resume ::
  "string \<Rightarrow> string \<Rightarrow> (js_error option + string) \<Rightarrow> action list \<times> (js_error option + unit)" where
  "jumpTo_resume warpingId pname fetched =
     ((case fetched of
         Inr summary \<Rightarrow>
           [MapMessageContent warpingId (''Warped to '' @ pname @ ''!'' @ [CHR 0x0A, CHR 0x0A] @ summary)]
       | Inl e \<Rightarrow>
           [MapMessageContent warpingId (''Warped to '' @ pname @ ''! Ready to explore.'')])
      @ [SetIsLoading False],
      Inr ())"

text \<open>All the effects of one invocation of \<open>jumpTo\<close>, in order, given how its summary request settles.\<close>

definition jumpTo_effects ::
  "app_state \<Rightarrow> (nat \<Rightarrow> nat) \<Rightarrow> string \<Rightarrow> jsnum \<Rightarrow> jsnum \<Rightarrow> bool \<Rightarrow> (js_error option + string) \<Rightarrow> action list" where
  "jumpTo_effects cl clock pname plat plng isNavigating fetched =
     (if \<not> isValidCoord (Num plat) \<or> \<not> isValidCoord (Num plng) then []
      else jumpTo cl clock pname plat plng isNavigating
           @ fst (jumpTo_resume (toString (clock 0)) pname fetched))"

text \<open>
  \<open>handleBack\<close> and \<open>handleForward\<close>. Reading a property of \<open>navHistory[i]\<close> out of range
  throws a TypeError, after \<open>setHistoryIndex\<close> has been called: the second component is the
  thrown error, if any.
\<close>

definition TypeError :: js_error where
  "TypeError = \<lparr> message = Some ''Cannot read properties of undefined'', status = None \<rparr>"

definition handleBack :: "app_state \<Rightarrow> (nat \<Rightarrow> nat) \<Rightarrow> action list \<times> js_error option" where
  "handleBack cl clock =
     (if historyIndex cl > 0 then
        (case index_at (navHistory cl) (historyIndex cl - 1) of
           Some prev \<Rightarrow>
             (SetHistoryIndex (historyIndex cl - 1) # jumpTo cl clock (name prev) (lat prev) (lng prev) True,
              None)
         | None \<Rightarrow> ([SetHistoryIndex (historyIndex cl - 1)], Some TypeError))
      else ([], None))"

definition handleForward :: "app_state \<Rightarrow> (nat \<Rightarrow> nat) \<Rightarrow> action list \<times> js_error option" where
  "handleForward cl clock =
     (if historyIndex cl < int (length (navHistory cl)) - 1 then
        (case index_at (navHistory cl) (historyIndex cl + 1) of
           Some next \<Rightarrow>
             (SetHistoryIndex (historyIndex cl + 1) # jumpTo cl clock (name next) (lat next) (lng next) True,
              None)
         | None \<Rightarrow> ([SetHistoryIndex (historyIndex cl + 1)], Some TypeError))
      else ([], None))"

text \<open>\<open>handleMapClick\<close> up to \<open>await reverseGeocode\<close>.\<close>

definition handleMapClick :: "app_state \<Rightarrow> jsnum \<Rightarrow> jsnum \<Rightarrow> action list" where
  "handleMapClick cl plat plng =
     (if isLoading cl \<or> \<not> isValidCoord (Num plat) \<or> \<not> isValidCoord (Num plng) then []
      else [SetIsLoading True, Call (ReqReverseGeocode plat plng)])"

text \<open>
  \<open>handleLocationSearch\<close> up to \<open>await geocode\<close>; \<open>e\<close> tells whether an event was passed,
  \<open>customQuery\<close> is \<open>None\<close> for \<open>undefined\<close>. \<open>a || b\<close> on strings is \<open>b\<close> when \<open>a\<close> is
  \<open>undefined\<close> or empty.
\<close>

definition or_else :: "string option \<Rightarrow> string \<Rightarrow> string" where
  "or_else a b = (case a of None \<Rightarrow> b | Some x \<Rightarrow> if x = [] then b else x)"

definition handleLocationSearch :: "app_state \<Rightarrow> bool \<Rightarrow> string option \<Rightarrow> action list" where
  "handleLocationSearch cl e customQuery =
     (if e then [PreventDefault] else [])
     @ (let query = trim (or_else customQuery (searchQuery cl)) in
        if query = [] \<or> isLoading cl then []
        else [SetIsLoading True, SetSuggestedAlternatives [], Call (ReqGeocode query)])"

text \<open>
  The \<open>finally\<close> block of \<open>handleMapClick\<close> and of \<open>handleLocationSearch\<close>. When the handler
  awaits a \<open>jumpTo\<close>, the block runs once that \<open>jumpTo\<close> has settled, after the effects of
  \<open>jumpTo_resume\<close>; on every other path it ends the continuation below.
\<close>

definition finally_not_loading :: "action list" where
  "finally_not_loading = [SetIsLoading False]"

text \<open>
  The continuation of \<open>handleMapClick\<close>, up to the \<open>await\<close> inside the \<open>jumpTo\<close> it calls;
  \<open>result\<close> is \<open>None\<close> for \<open>null\<close>.
\<close>

definition handleMapClick_resume ::
  "app_state \<Rightarrow> (nat \<Rightarrow> nat) \<Rightarrow> (js_error option + (string \<times> jsval \<times> jsval) option) \<Rightarrow> action list" where
  "handleMapClick_resume cl clock fetched =
     (case fetched of
        Inr result \<Rightarrow>
          (case result of
             Some (rname, rlat, rlng) \<Rightarrow>
               if isValidCoord rlat \<and> isValidCoord rlng then
                 jumpTo cl clock rname (the_num rlat) (the_num rlng) False
               else finally_not_loading
           | None \<Rightarrow> finally_not_loading)
      | Inl e \<Rightarrow> finally_not_loading)"

text \<open>
  The continuation of \<open>handleLocationSearch\<close> for the trimmed \<open>query\<close>, up to the \<open>await\<close>
  inside the \<open>jumpTo\<close> it calls. \<open>result.name\<close> counts when it is a non-empty string,
  \<open>result.alternatives\<close> when it is a non-empty array.
\<close>

definition handleLocationSearch_resume ::
  "app_state \<Rightarrow> (nat \<Rightarrow> nat) \<Rightarrow> string \<Rightarrow> (js_error option + GeocodeResponse option) \<Rightarrow> action list" where
  "handleLocationSearch_resume cl clock query fetched =
     (case fetched of
        Inr result \<Rightarrow>
          (case result of
             Some (GeocodeResponse rname rlat rlng ralternatives) \<Rightarrow>
               if or_else rname [] \<noteq> [] \<and> isValidCoord rlat \<and> isValidCoord rlng then
                 jumpTo cl clock (or_else rname []) (the_num rlat) (the_num rlng) False
               else if (case ralternatives of Some alts \<Rightarrow> alts \<noteq> [] | None \<Rightarrow> False) then
                 [SetSuggestedAlternatives (case ralternatives of Some alts \<Rightarrow> alts | None \<Rightarrow> []),
                  AppendMessage \<lparr> msg_id = toString (clock 0), role = Assistant,
                    content = ''I couldn't find '' @ [CHR 0x22] @ query @ [CHR 0x22]
                              @ ''. Did you mean one of these?'',
                    timestamp = clock 1, sources = None, locationData = None \<rparr>]
                 @ finally_not_loading
               else
                 [AppendMessage \<lparr> msg_id = toString (clock 0), role = Assistant,
                    content = ''Sorry, I couldn't find '' @ [CHR 0x22] @ query @ [CHR 0x22]
                              @ ''. Try a different city.'',
                    timestamp = clock 1, sources = None, locationData = None \<rparr>]
                 @ finally_not_loading
           | None \<Rightarrow>
               [AppendMessage \<lparr> msg_id = toString (clock 0), role = Assistant,
                  content = ''Sorry, I couldn't find '' @ [CHR 0x22] @ query @ [CHR 0x22]
                            @ ''. Try a different city.'',
                  timestamp = clock 1, sources = None, locationData = None \<rparr>]
               @ finally_not_loading)
      | Inl err \<Rightarrow> finally_not_loading)"

text \<open>\<open>handleSend\<close> up to \<open>await queryLocation\<close>.\<close>

definition handleSend :: "app_state \<Rightarrow> (nat \<Rightarrow> nat) \<Rightarrow> string option \<Rightarrow> action list" where
  "handleSend cl clock customInput =
     (let queryText = or_else customInput (input cl) in
      if trim queryText = [] \<or> isLoading cl then []
      else
        [AppendMessage \<lparr> msg_id = toString (clock 0), role = User, content = queryText,
           timestamp = clock 1, sources = None, locationData = None \<rparr>]
        @ (if or_else customInput [] = [] then [SetInput []] else [])
        @ [SetIsLoading True, Call (ReqQueryLocation queryText (focalLocation cl))])"

text \<open>
  The continuation of \<open>handleSend\<close>. The reply gets the identifier
  \<open>(Date.now() + 1).toString()\<close>; \<open>response.locationData\<close> is an array, which is truthy
  also when empty.
\<close>

definition handleSend_resume ::
  "(nat \<Rightarrow> nat) \<Rightarrow> (js_error option + QueryResponse) \<Rightarrow> action list" where
  "handleSend_resume clock fetched =
     (case fetched of
        Inr (QueryResponse rtext rsources rlocationData) \<Rightarrow>
          [AppendMessage \<lparr> msg_id = toString (clock 0 + 1), role = Assistant, content = rtext,
             timestamp = clock 1, sources = Some rsources, locationData = Some rlocationData \<rparr>,
           SetMarkers rlocationData,
           SetIsLoading False]
      | Inl error \<Rightarrow> [SetIsLoading False])"

text \<open>\<open>handleFeelingLucky\<close> up to \<open>await getDynamicCoolLocation\<close>. Its \<open>loadingId\<close> is \<open>toString (clock 0)\<close>.\<close>

definition handleFeelingLucky :: "app_state \<Rightarrow> (nat \<Rightarrow> nat) \<Rightarrow> action list" where
  "handleFeelingLucky cl clock =
     (if isLoading cl then []
      else
        [IncActiveSessionId,
         SetGalleryImages [],
         SetSuggestedQuestions [],
         SetIsLoading True,
         AppendMessage \<lparr> msg_id = toString (clock 0), role = Assistant,
           content = ''Scouring the globe for something unique...'', timestamp = clock 1,
           sources = None, locationData = None \<rparr>,
         Call (ReqDynamicCoolLocation (seenHistory cl))])"

text \<open>
  Its continuation, up to the \<open>await\<close> inside the \<open>jumpTo\<close> it calls. \<open>gem\<close> is the parsed
  response: \<open>None\<close> for \<open>null\<close>, else its \<open>name\<close>, \<open>lat\<close> and \<open>lng\<close>, the coordinates being
  whatever the response held. The two copies of the component differ in the \<open>catch\<close> block:
  the one in \<open>src/unnamed/part_000\<close> also appends a message (\<open>notify = True\<close>), the one in
  \<open>src/App.tsx\<close> does not.
\<close>

definition handleFeelingLucky_resume ::
  "bool \<Rightarrow> app_state \<Rightarrow> (nat \<Rightarrow> nat) \<Rightarrow> string
     \<Rightarrow> (js_error option + (string \<times> jsval \<times> jsval) option) \<Rightarrow> action list" where
  "handleFeelingLucky_resume notify cl clock loadingId fetched =
     (case fetched of
        Inr gem \<Rightarrow>
          FilterOutMessage loadingId #
          (case gem of
             Some (gname, glat, glng) \<Rightarrow>
               if isValidCoord glat \<and> isValidCoord glng then
                 AppendSeenHistory gname # jumpTo cl clock gname (the_num glat) (the_num glng) False
               else
                 [SetIsLoading False,
                  AppendMessage \<lparr> msg_id = toString (clock 0), role = Assistant,
                    content = ''I couldn't find a new spot right now. Let's try again.'',
                    timestamp = clock 1, sources = None, locationData = None \<rparr>]
           | None \<Rightarrow>
               [SetIsLoading False,
                AppendMessage \<lparr> msg_id = toString (clock 0), role = Assistant,
                  content = ''I couldn't find a new spot right now. Let's try again.'',
                  timestamp = clock 1, sources = None, locationData = None \<rparr>])
      | Inl err \<Rightarrow>
          SetIsLoading False #
          (if notify then
             [AppendMessage \<lparr> msg_id = toString (clock 0), role = Assistant,
                content = ''Warp coordinates lost. Try searching manually!'',
                timestamp = clock 1, sources = None, locationData = None \<rparr>]
           else []))"

text \<open>A clock that reads \<open>t\<close> at the first \<open>Date.now()\<close> of a handler, \<open>t + 1\<close> at the second.\<close>

definition clock_at :: "nat \<Rightarrow> nat \<Rightarrow> nat" where
  "clock_at t k = t + k"

text \<open>
  One complete successful "random location" round from state \<open>s\<close>: the click at time \<open>t\<close>
  (which does nothing while the busy flag is set), the gateway answering at time \<open>t + 500\<close>
  with the place \<open>(gname, glat, glng)\<close>, and the summary of the ensuing \<open>jumpTo\<close> arriving.
\<close>

definition lucky_round :: "app_state \<Rightarrow> nat \<times> string \<times> jsnum \<times> jsnum \<Rightarrow> app_state" where
  "lucky_round s r =
     (case r of (t, gname, glat, glng) \<Rightarrow>
        if isLoading s then s
        else
          let s1 = run s (handleFeelingLucky s (clock_at t));
              s2 = run s1 (handleFeelingLucky_resume False s (clock_at (t + 500)) (toString (clock_at t 0))
                             (Inr (Some (gname, Num glat, Num glng))));
              s3 = run s2 (fst (jumpTo_resume (toString (clock_at (t + 500) 0)) gname
                             (Inr (welcome_to gname))))
          in s3)"

text \<open>The navigation-history invariant.\<close>

definition nav_inv :: "app_state \<Rightarrow> bool" where
  "nav_inv s = (0 \<le> historyIndex s \<and> historyIndex s < int (length (navHistory s)))"

section \<open>Example inputs\<close>

definition paris :: NavLocation where
  "paris = \<lparr> name = ''Paris'', lat = Finite 48.8566, lng = Finite 2.3522 \<rparr>"

definition rome :: NavLocation where
  "rome = \<lparr> name = ''Rome'', lat = Finite 41.9028, lng = Finite 12.4964 \<rparr>"

definition cairo :: NavLocation where
  "cairo = \<lparr> name = ''Cairo'', lat = Finite 30.0444, lng = Finite 31.2357 \<rparr>"

definition lima :: NavLocation where
  "lima = \<lparr> name = ''Lima'', lat = Finite (-12.0464), lng = Finite (-77.0428) \<rparr>"

text \<open>A session that visited Paris, Rome and Cairo, with the cursor at index \<open>i\<close>.\<close>

definition browsing :: "int \<Rightarrow> app_state" where
  "browsing i = (initial_state 0)\<lparr> navHistory := [paris, rome, cairo], historyIndex := i \<rparr>"

definition tower :: VisualLandmark where
  "tower = \<lparr> shortCaption = ''Iron lattice tower'', richCaption = ''A tower over the river.'',
             imageUrl = ''https://example.org/tower.jpg'', sourceUri = None \<rparr>"

definition forum :: VisualLandmark where
  "forum = \<lparr> shortCaption = ''Ancient forum ruins'', richCaption = ''Columns in the evening sun.'',
             imageUrl = ''https://example.org/forum.jpg'', sourceUri = None \<rparr>"

text \<open>An operation that fails with a 503, then with a rate-limit message, then returns 7.\<close>

definition flaky :: "nat \<Rightarrow> js_error + nat" where
  "flaky k = (if k = 0 then Inl \<lparr> message = None, status = Some 503 \<rparr>
              else if k = 1 then Inl \<lparr> message = Some ''got 429 from upstream'', status = None \<rparr>
              else Inr 7)"

text \<open>A model request that is always refused with status 401, and \<open>Math.random()\<close> always 1/2.\<close>

definition refused :: "nat \<Rightarrow> js_error + string option" where
  "refused k = Inl \<lparr> message = Some ''unauthorized'', status = Some 401 \<rparr>"

definition half :: "nat \<Rightarrow> real" where
  "half k = 1 / 2"

text \<open>
  The \<open>k\<close>-th round of a run of "random location" clicks, one every second, each answered
  with a place named by its number.
\<close>

definition numbered_round :: "nat \<Rightarrow> nat \<times> string \<times> jsnum \<times> jsnum" where
  "numbered_round k = (1000 * k, toString k, Finite 0, Finite 0)"

text \<open>An operation that fails with a 503 at every attempt.\<close>

definition always_503 :: "nat \<Rightarrow> js_error + nat" where
  "always_503 k = Inl \<lparr> message = None, status = Some 503 \<rparr>"

text \<open>
  Two overlapping refreshes from the first render: the one for Paris captures token 1, the
  one for Rome token 2; neither has completed.
\<close>

definition two_refreshes :: app_state where
  "two_refreshes =
     run (run (initial_state 0) (updateGalleryAndQuestions ''Paris'')) (updateGalleryAndQuestions ''Rome'')"

text \<open>
  A fresh jump to Paris from the first render, and then a second one to Rome started
  within the same millisecond, both still waiting for their summaries.
\<close>

definition warped_once :: app_state where
  "warped_once =
     run (initial_state 0) (jumpTo (initial_state 0) (clock_at 5) ''Paris'' (lat paris) (lng paris) False)"

definition warped_twice :: app_state where
  "warped_twice =
     run warped_once (jumpTo warped_once (clock_at 5) ''Rome'' (lat rome) (lng rome) False)"

text \<open>
  A session at Cairo (index 2 of 3): a click on "random location" at time 1000; a click on
  the back button at time 2000, from the render that followed, while the gateway has not
  answered; and the answer Lima arriving at time 3000, handled by the continuation of the
  first click.
\<close>

definition lucky_pending :: app_state where
  "lucky_pending = run (browsing 2) (handleFeelingLucky (browsing 2) (clock_at 1000))"

definition lucky_then_back :: app_state where
  "lucky_then_back = run lucky_pending (fst (handleBack lucky_pending (clock_at 2000)))"

definition lucky_answered :: app_state where
  "lucky_answered =
     run lucky_then_back
       (handleFeelingLucky_resume False (browsing 2) (clock_at 3000) (toString (clock_at 1000 0))
          (Inr (Some (name lima, Num (lat lima), Num (lng lima)))))"

text \<open>A response whose text is a line feed and a no-break space.\<close>

definition blank_response :: "nat \<Rightarrow> js_error + string option" where
  "blank_response k = Inr (Some [CHR 0x0A, CHR 0xA0])"

text \<open>The session at Rome (index 1 of 3), with a request in flight.\<close>

definition busy :: app_state where
  "busy = (browsing 1)\<lparr> isLoading := True \<rparr>"

section \<open>Running effects\<close>

lemma run_Nil: "run s [] = s"
  by (simp add: run_def)

lemma run_Cons: "run s (a # as) = run (apply_action a s) as"
  by (simp add: run_def)

lemma run_append: "run s (xs @ ys) = run (run s xs) ys"
  by (simp add: run_def)

section \<open>The retry loop\<close>

lemma upt_four: "[0..<4] = [0, 1, 2, 3::nat]"
  by (simp add: upt_conv_Cons)

lemma loop_lastError:
  "attempt \<le> maxRetries \<Longrightarrow>
   withRetry_loop fn rnd maxRetries baseDelay attempt l = withRetry_loop fn rnd maxRetries baseDelay attempt l'"
  by (subst withRetry_loop.simps, subst (2) withRetry_loop.simps) simp

lemma loop_success:
  "attempt \<le> maxRetries \<Longrightarrow> fn attempt = Inr v \<Longrightarrow>
   withRetry_loop fn rnd maxRetries baseDelay attempt l = (Inr v, 1, [])"
  by (subst withRetry_loop.simps) simp

lemma loop_give_up:
  "attempt \<le> maxRetries \<Longrightarrow> fn attempt = Inl e \<Longrightarrow>
   \<not> (isRateLimited e \<or> isServerError e) \<or> attempt = maxRetries \<Longrightarrow>
   withRetry_loop fn rnd maxRetries baseDelay attempt l = (Inl (Some e), 1, [])"
  by (subst withRetry_loop.simps) auto

lemma loop_retry:
  "attempt < maxRetries \<Longrightarrow> retryable fn attempt \<Longrightarrow>
   withRetry_loop fn rnd maxRetries baseDelay attempt l =
     (case withRetry_loop fn rnd maxRetries baseDelay (Suc attempt) l' of
        (r, n, ds) \<Rightarrow> (r, Suc n, retry_delay rnd baseDelay attempt # ds))"
proof -
  assume a: "attempt < maxRetries" and r: "retryable fn attempt"
  from r obtain e where e: "fn attempt = Inl e" "isRateLimited e \<or> isServerError e"
    by (auto simp: retryable_def split: sum.splits)
  have "Suc attempt \<le> maxRetries" using a by simp
  from loop_lastError[OF this, of fn rnd baseDelay "Some e" l'] a e show ?thesis
    by (subst withRetry_loop.simps) (simp add: retry_delay_def)
qed

lemma loop_chain:
  "attempt + k \<le> maxRetries \<Longrightarrow> (\<forall>j<k. retryable fn (attempt + j)) \<Longrightarrow>
   withRetry_loop fn rnd maxRetries baseDelay attempt l =
     (case withRetry_loop fn rnd maxRetries baseDelay (attempt + k) l' of
        (r, n, ds) \<Rightarrow> (r, n + k, map (retry_delay rnd baseDelay) [attempt..<attempt + k] @ ds))"
proof (induction k arbitrary: attempt l)
  case 0
  then show ?case using loop_lastError[of attempt maxRetries fn rnd baseDelay l l'] by (simp split: prod.splits)
next
  case (Suc k)
  have r0: "retryable fn attempt" using Suc.prems(2) by (metis add.right_neutral zero_less_Suc)
  have lt: "attempt < maxRetries" using Suc.prems(1) by simp
  have rest: "\<forall>j<k. retryable fn (Suc attempt + j)" using Suc.prems(2) by (metis Suc_less_eq add_Suc_shift)
  have le: "Suc attempt + k \<le> maxRetries" using Suc.prems(1) by simp
  have upt: "[attempt..<attempt + Suc k] = attempt # [Suc attempt..<Suc attempt + k]"
    by (simp add: upt_conv_Cons)
  show ?case
    unfolding upt
    by (simp add: loop_retry[OF lt r0, of rnd baseDelay l l'] Suc.IH[OF le rest, of l']
        split: prod.splits)
qed

lemma loop_calls_le:
  "fst (snd (withRetry_loop fn rnd maxRetries baseDelay attempt l)) \<le> Suc maxRetries - attempt"
proof (induction fn rnd maxRetries baseDelay attempt l rule: withRetry_loop.induct)
  case (1 fn rnd maxRetries baseDelay attempt lastError)
  show ?case
    apply (subst withRetry_loop.simps)
    using 1 by (auto split: sum.splits prod.splits)
qed

lemma loop_retry_only:
  "attempt \<le> k \<Longrightarrow> Suc k < attempt + fst (snd (withRetry_loop fn rnd maxRetries baseDelay attempt l)) \<Longrightarrow>
   retryable fn k \<and> k < maxRetries"
proof (induction fn rnd maxRetries baseDelay attempt l rule: withRetry_loop.induct)
  case (1 fn rnd maxRetries baseDelay attempt lastError)
  let ?calls = "\<lambda>a l. fst (snd (withRetry_loop fn rnd maxRetries baseDelay a l))"
  have more: "1 < ?calls attempt lastError" using "1.prems" by simp
  have le: "attempt \<le> maxRetries"
    using more by (subst (asm) withRetry_loop.simps) (simp split: if_splits)
  obtain e where e: "fn attempt = Inl e"
    using more le by (subst (asm) withRetry_loop.simps) (auto split: sum.splits)
  have c: "(isRateLimited e \<or> isServerError e) \<and> attempt < maxRetries"
    using more le e by (subst (asm) withRetry_loop.simps) (auto split: if_splits)
  have calls: "?calls attempt lastError = Suc (?calls (attempt + 1) (Some e))"
    using le e c by (subst withRetry_loop.simps) (auto split: prod.splits)
  show ?case
  proof (cases "k = attempt")
    case True
    then show ?thesis using e c by (simp add: retryable_def)
  next
    case False
    then have "attempt + 1 \<le> k" using "1.prems"(1) by simp
    moreover have "Suc k < attempt + 1 + ?calls (attempt + 1) (Some e)"
      using "1.prems"(2) calls by simp
    ultimately show ?thesis using "1.IH"[OF le e c] by blast
  qed
qed

lemma first_stop:
  "\<exists>k\<le>maxRetries. (\<forall>j<k. retryable fn j) \<and> (\<not> retryable fn k \<or> k = maxRetries)"
proof (cases "\<forall>k\<le>maxRetries. retryable fn k")
  case True
  then show ?thesis by (intro exI[of _ maxRetries]) simp
next
  case False
  then obtain k where k: "k \<le> maxRetries" "\<not> retryable fn k" by blast
  define k0 where "k0 = (LEAST k. \<not> retryable fn k)"
  have "\<not> retryable fn k0" unfolding k0_def using k(2) by (rule LeastI)
  moreover have "k0 \<le> k" unfolding k0_def using k(2) by (rule Least_le)
  moreover have "\<forall>j<k0. retryable fn j" unfolding k0_def using not_less_Least by blast
  ultimately show ?thesis using k(1) by (intro exI[of _ k0]) simp
qed

text \<open>
  C8: \<open>withRetry\<close> invokes the wrapped operation at most \<open>maxRetries + 1\<close> times, five with
  the defaults. An invocation is followed by another one only when it failed with a rate
  limit (a message containing 429, or status 429) or a server error (status 500 to 504)
  and attempts remain. After \<open>k\<close> such failures, each followed by a wait of
  \<open>baseDelay * 3 ^ j + Math.random() * 3000\<close>, a success at attempt \<open>k\<close> is returned at once,
  and a failure that is of another kind, or that uses up the last attempt, is rethrown.
  Every run has one of these two shapes.
\<close>

theorem withRetry_spec:
  "fst (snd (withRetry fn rnd maxRetries baseDelay)) \<le> maxRetries + 1
   \<and> fst (snd (withRetry_default fn rnd)) \<le> 5
   \<and> (\<forall>k. Suc k < fst (snd (withRetry fn rnd maxRetries baseDelay)) \<longrightarrow>
          k < maxRetries \<and> (\<exists>e. fn k = Inl e \<and> (isRateLimited e \<or> isServerError e)))
   \<and> (\<forall>k v. k \<le> maxRetries \<and> (\<forall>j<k. retryable fn j) \<and> fn k = Inr v \<longrightarrow>
          withRetry fn rnd maxRetries baseDelay
            = (Inr v, k + 1, map (\<lambda>j. baseDelay * 3 ^ j + rnd j * 3000) [0..<k]))
   \<and> (\<forall>k e. k \<le> maxRetries \<and> (\<forall>j<k. retryable fn j) \<and> fn k = Inl e
            \<and> (\<not> (isRateLimited e \<or> isServerError e) \<or> k = maxRetries) \<longrightarrow>
          withRetry fn rnd maxRetries baseDelay
            = (Inl (Some e), k + 1, map (\<lambda>j. baseDelay * 3 ^ j + rnd j * 3000) [0..<k]))
   \<and> (\<exists>k\<le>maxRetries. (\<forall>j<k. retryable fn j) \<and> (\<not> retryable fn k \<or> k = maxRetries))"
proof -
  have a: "fst (snd (withRetry fn rnd maxRetries baseDelay)) \<le> maxRetries + 1" for maxRetries baseDelay
    using loop_calls_le[of fn rnd maxRetries baseDelay 0 None] by (simp add: withRetry_def)
  have b: "fst (snd (withRetry_default fn rnd)) \<le> 5"
    using a[of 4 3000] by (simp add: withRetry_default_def)
  have c: "k < maxRetries \<and> (\<exists>e. fn k = Inl e \<and> (isRateLimited e \<or> isServerError e))"
    if "Suc k < fst (snd (withRetry fn rnd maxRetries baseDelay))" for k
    using loop_retry_only[of 0 k fn rnd maxRetries baseDelay None] that
    by (auto simp: withRetry_def retryable_def split: sum.splits)
  have chain: "withRetry fn rnd maxRetries baseDelay =
     (case withRetry_loop fn rnd maxRetries baseDelay k None of
        (r, n, ds) \<Rightarrow> (r, n + k, map (\<lambda>j. baseDelay * 3 ^ j + rnd j * 3000) [0..<k] @ ds))"
    if "k \<le> maxRetries" "\<forall>j<k. retryable fn j" for k
    using loop_chain[of 0 k maxRetries fn rnd baseDelay None None] that
    by (simp add: withRetry_def retry_delay_def[abs_def])
  have d: "withRetry fn rnd maxRetries baseDelay
            = (Inr v, k + 1, map (\<lambda>j. baseDelay * 3 ^ j + rnd j * 3000) [0..<k])"
    if "k \<le> maxRetries \<and> (\<forall>j<k. retryable fn j) \<and> fn k = Inr v" for k v
    using that chain[of k] loop_success[of k maxRetries fn v rnd baseDelay None] by simp
  have e: "withRetry fn rnd maxRetries baseDelay
            = (Inl (Some e), k + 1, map (\<lambda>j. baseDelay * 3 ^ j + rnd j * 3000) [0..<k])"
    if "k \<le> maxRetries \<and> (\<forall>j<k. retryable fn j) \<and> fn k = Inl e
            \<and> (\<not> (isRateLimited e \<or> isServerError e) \<or> k = maxRetries)" for k e
    using that chain[of k] loop_give_up[of k maxRetries fn e rnd baseDelay None] by simp
  show ?thesis using a b c d e first_stop[of maxRetries fn] by blast
qed


text \<open>
  Three instances: a 503, then a rate limit, then the value 7 (two waits, three
  invocations); a request refused with status 401 (no retry); and a 503 at every attempt
  (five invocations, four waits, the last error rethrown).
\<close>

theorem withRetry_spec_witness:
  "withRetry flaky half 4 3000 = (Inr 7, 3, [4500, 10500])
   \<and> withRetry refused half 4 3000
       = (Inl (Some \<lparr> message = Some ''unauthorized'', status = Some 401 \<rparr>), 1, [])
   \<and> withRetry always_503 half 4 3000
       = (Inl (Some \<lparr> message = None, status = Some 503 \<rparr>), 5, [4500, 10500, 28500, 82500])
   \<and> fst (snd (withRetry_default always_503 half)) \<le> 5"
proof -
  have r2: "\<forall>j<2. retryable flaky j"
    by (simp add: retryable_def flaky_def isRateLimited_def isServerError_def less_Suc_eq numeral_2_eq_2)
  have h1: "(2::nat) \<le> 4 \<and> (\<forall>j<2. retryable flaky j) \<and> flaky 2 = Inr 7"
    using r2 by (simp add: flaky_def)
  note success = withRetry_spec[of flaky half 4 3000,
      THEN conjunct2, THEN conjunct2, THEN conjunct2, THEN conjunct1, rule_format, OF h1]
  have a: "withRetry flaky half 4 3000 = (Inr 7, 3, [4500, 10500])"
    using success by (simp add: numeral_2_eq_2 half_def)
  let ?e = "\<lparr> message = Some ''unauthorized'', status = Some 401 \<rparr>"
  have h2: "(0::nat) \<le> 4 \<and> (\<forall>j<0. retryable refused j) \<and> refused 0 = Inl ?e
        \<and> (\<not> (isRateLimited ?e \<or> isServerError ?e) \<or> (0::nat) = 4)"
    by (simp add: refused_def isRateLimited_def isServerError_def)
  note refusal = withRetry_spec[of refused half 4 3000,
      THEN conjunct2, THEN conjunct2, THEN conjunct2, THEN conjunct2, THEN conjunct1, rule_format, OF h2]
  have b: "withRetry refused half 4 3000 = (Inl (Some ?e), 1, [])"
    using refusal by simp
  let ?o = "\<lparr> message = None, status = Some 503 \<rparr>"
  have h3: "(4::nat) \<le> 4 \<and> (\<forall>j<4. retryable always_503 j) \<and> always_503 4 = Inl ?o
        \<and> (\<not> (isRateLimited ?o \<or> isServerError ?o) \<or> (4::nat) = 4)"
    by (simp add: always_503_def retryable_def isServerError_def)
  note exhaustion = withRetry_spec[of always_503 half 4 3000,
      THEN conjunct2, THEN conjunct2, THEN conjunct2, THEN conjunct2, THEN conjunct1, rule_format, OF h3]
  have c: "withRetry always_503 half 4 3000 = (Inl (Some ?o), 5, [4500, 10500, 28500, 82500])"
    using exhaustion by (simp add: upt_four half_def)
  note bound = withRetry_spec[of always_503 half 4 3000, THEN conjunct2, THEN conjunct1]
  show ?thesis using a b c bound by simp
qed

section \<open>The place summary\<close>

lemma loop_map_sum:
  "withRetry_loop (\<lambda>k. map_sum (\<lambda>e. e) f (gen k)) rnd maxRetries baseDelay attempt l =
     (case withRetry_loop gen rnd maxRetries baseDelay attempt l of
        (r, n, ds) \<Rightarrow> (map_sum (\<lambda>e. e) f r, n, ds))"
proof (induction gen rnd maxRetries baseDelay attempt l rule: withRetry_loop.induct)
  case (1 gen rnd maxRetries baseDelay attempt lastError)
  show ?case
  proof (cases "attempt \<le> maxRetries")
    case False
    then show ?thesis
      by (subst withRetry_loop.simps, subst (2) withRetry_loop.simps) simp
  next
    case le: True
    show ?thesis
    proof (cases "gen attempt")
      case (Inr v)
      then show ?thesis using le
        by (subst withRetry_loop.simps, subst (2) withRetry_loop.simps) simp
    next
      case (Inl e)
      show ?thesis
      proof (cases "(isRateLimited e \<or> isServerError e) \<and> attempt < maxRetries")
        case True
        from "1.IH"[OF le Inl True] show ?thesis using le Inl True
          by (subst withRetry_loop.simps, subst (2) withRetry_loop.simps) (auto split: prod.splits)
      next
        case False
        then show ?thesis using le Inl
          by (subst withRetry_loop.simps, subst (2) withRetry_loop.simps) auto
      qed
    qed
  qed
qed

lemma getLocationSummary_eq:
  "getLocationSummary generateContent rnd placeName =
     Inr (case fst (withRetry_default generateContent rnd) of
            Inl e \<Rightarrow> welcome_to placeName
          | Inr text \<Rightarrow> summary_text placeName text)"
  by (simp add: getLocationSummary_def withRetry_default_def withRetry_def loop_map_sum
      split: prod.splits sum.splits)

lemma msgs_jumpTo:
  "\<not> isNaN plat \<Longrightarrow> \<not> isNaN plng \<Longrightarrow>
   messages (run s (jumpTo cl clock pname plat plng isNavigating)) =
     messages s @ [\<lparr> msg_id = toString (clock 0), role = Assistant,
           content = ''Warping to '' @ pname @ ''...'', timestamp = clock 1,
           sources = None, locationData = None \<rparr>]"
  by (simp add: jumpTo_def updateGalleryAndQuestions_def run_def Let_def)

lemma msgs_resume:
  "messages (run s (fst (jumpTo_resume w pname fetched))) =
     map_content w (case fetched of
          Inr summary \<Rightarrow> ''Warped to '' @ pname @ ''!'' @ [CHR 0x0A, CHR 0x0A] @ summary
        | Inl e \<Rightarrow> ''Warped to '' @ pname @ ''! Ready to explore.'') (messages s)"
  by (cases fetched) (simp_all add: jumpTo_resume_def run_def)

text \<open>Among the characters of the model, \<open>trim\<close> strips these seven.\<close>

lemma is_space_iff:
  "is_space c \<longleftrightarrow>
     c \<in> set [CHR 0x09, CHR 0x0A, CHR 0x0B, CHR 0x0C, CHR 0x0D, CHR 0x20, CHR 0xA0]"
proof -
  define n :: nat where "n = of_char c"
  have small: "n < 256" by (simp add: n_def)
  have "is_space c \<longleftrightarrow> n \<in> {9, 10, 11, 12, 13, 32, 160}"
    using small by (auto simp: is_space_def js_whitespace_def n_def[symmetric])
  moreover have "c = d \<longleftrightarrow> n = of_char d" for d
    unfolding n_def by (metis of_char_eq_iff)
  ultimately show ?thesis by simp
qed

text \<open>
  C7: the promise of \<open>jumpTo\<close> never rejects, whatever the summary request does; after a
  \<open>jumpTo\<close> with valid coordinates whose summary request succeeds, the placeholder message
  reads "Warped to <name>!", an empty line, and the summary; after one whose request fails
  it reads "Warped to <name>! Ready to explore.". \<open>getLocationSummary\<close> itself always
  fulfils: with "Welcome to <placeName>!" when the retried request fails in the end or its
  text is missing or blank (empty once \<open>trim\<close> has stripped the white space, the no-break
  space included), with the trimmed text otherwise. So with the summary that
  \<open>getLocationSummary\<close> really delivers, the placeholder always ends up in the first form.
\<close>

theorem summary_outcomes:
  "snd (jumpTo_resume w pname fetched) = Inr ()
   \<and> getLocationSummary generateContent rnd placeName =
       Inr (case fst (withRetry_default generateContent rnd) of
              Inl e \<Rightarrow> ''Welcome to '' @ placeName @ ''!''
            | Inr None \<Rightarrow> ''Welcome to '' @ placeName @ ''!''
            | Inr (Some t) \<Rightarrow> if trim t = [] then ''Welcome to '' @ placeName @ ''!'' else trim t)
   \<and> (isValidCoord (Num plat) \<and> isValidCoord (Num plng) \<longrightarrow>
        messages (run s (jumpTo_effects cl clock pname plat plng isNavigating (Inr summary))) =
          map_content (toString (clock 0))
            (''Warped to '' @ pname @ ''!'' @ [CHR 0x0A, CHR 0x0A] @ summary) (messages s)
          @ [\<lparr> msg_id = toString (clock 0), role = Assistant,
               content = ''Warped to '' @ pname @ ''!'' @ [CHR 0x0A, CHR 0x0A] @ summary,
               timestamp = clock 1, sources = None, locationData = None \<rparr>]
        \<and> messages (run s (jumpTo_effects cl clock pname plat plng isNavigating (Inl err))) =
          map_content (toString (clock 0))
            (''Warped to '' @ pname @ ''! Ready to explore.'') (messages s)
          @ [\<lparr> msg_id = toString (clock 0), role = Assistant,
               content = ''Warped to '' @ pname @ ''! Ready to explore.'',
               timestamp = clock 1, sources = None, locationData = None \<rparr>]
        \<and> (\<exists>delivered.
              getLocationSummary generateContent rnd pname = Inr delivered
              \<and> content (last (messages (run s (jumpTo_effects cl clock pname plat plng isNavigating
                           (getLocationSummary generateContent rnd pname)))))
                  = ''Warped to '' @ pname @ ''!'' @ [CHR 0x0A, CHR 0x0A] @ delivered))"
proof -
  have a: "snd (jumpTo_resume w pname fetched) = Inr ()" by (simp add: jumpTo_resume_def)
  have b: "getLocationSummary generateContent rnd placeName =
       Inr (case fst (withRetry_default generateContent rnd) of
              Inl e \<Rightarrow> ''Welcome to '' @ placeName @ ''!''
            | Inr None \<Rightarrow> ''Welcome to '' @ placeName @ ''!''
            | Inr (Some t) \<Rightarrow> if trim t = [] then ''Welcome to '' @ placeName @ ''!'' else trim t)"
    by (simp add: getLocationSummary_eq summary_text_def welcome_to_def split: sum.splits option.splits)
  have c: "messages (run s (jumpTo_effects cl clock pname plat plng isNavigating f)) =
      map_content (toString (clock 0))
         (case f of Inr summary \<Rightarrow> ''Warped to '' @ pname @ ''!'' @ [CHR 0x0A, CHR 0x0A] @ summary
          | Inl e \<Rightarrow> ''Warped to '' @ pname @ ''! Ready to explore.'') (messages s)
          @ [\<lparr> msg_id = toString (clock 0), role = Assistant,
               content = (case f of Inr summary \<Rightarrow> ''Warped to '' @ pname @ ''!'' @ [CHR 0x0A, CHR 0x0A] @ summary
                  | Inl e \<Rightarrow> ''Warped to '' @ pname @ ''! Ready to explore.''),
               timestamp = clock 1, sources = None, locationData = None \<rparr>]"
    if "isValidCoord (Num plat) \<and> isValidCoord (Num plng)" for f
    using that
    by (simp add: jumpTo_effects_def run_append msgs_resume msgs_jumpTo map_content_def)
  have d: "\<exists>delivered.
              getLocationSummary generateContent rnd pname = Inr delivered
              \<and> content (last (messages (run s (jumpTo_effects cl clock pname plat plng isNavigating
                           (getLocationSummary generateContent rnd pname)))))
                  = ''Warped to '' @ pname @ ''!'' @ [CHR 0x0A, CHR 0x0A] @ delivered"
    if v: "isValidCoord (Num plat) \<and> isValidCoord (Num plng)"
  proof -
    obtain delivered where g: "getLocationSummary generateContent rnd pname = Inr delivered"
      using getLocationSummary_eq[of generateContent rnd pname] by blast
    show ?thesis using c[OF v, where f = "Inr delivered"] g by simp
  qed
  show ?thesis using a b c[where f = "Inr summary"] c[where f = "Inl err"] d by simp
qed

text \<open>
  Instances: a refused request and a response of white space only both make
  \<open>getLocationSummary\<close> answer with its fallback, and the placeholder of a jump to Paris
  is rewritten on either path.
\<close>

theorem summary_outcomes_witness:
  "isValidCoord (Num (lat paris)) \<and> isValidCoord (Num (lng paris))
   \<and> getLocationSummary refused half ''Paris'' = Inr ''Welcome to Paris!''
   \<and> getLocationSummary blank_response half ''Paris'' = Inr ''Welcome to Paris!''
   \<and> map content (tl (messages (run (initial_state 0)
        (jumpTo_effects (initial_state 0) (clock_at 5) ''Paris'' (lat paris) (lng paris) False
           (Inr ''Welcome to Paris!'')))))
       = [''Warped to Paris!'' @ [CHR 0x0A, CHR 0x0A] @ ''Welcome to Paris!'']
   \<and> map content (tl (messages (run (initial_state 0)
        (jumpTo_effects (initial_state 0) (clock_at 5) ''Paris'' (lat paris) (lng paris) False
           (Inl None)))))
       = [''Warped to Paris! Ready to explore.'']"
proof -
  have v: "isValidCoord (Num (lat paris)) \<and> isValidCoord (Num (lng paris))"
    by (simp add: paris_def)
  note refusal = summary_outcomes[where generateContent = refused and rnd = half
      and placeName = "''Paris''" and plat = "lat paris" and plng = "lng paris"
      and s = "initial_state 0" and cl = "initial_state 0" and clock = "clock_at 5"
      and pname = "''Paris''" and isNavigating = False and summary = "''Welcome to Paris!''"
      and err = None]
  note blank = summary_outcomes[where generateContent = blank_response and rnd = half
      and placeName = "''Paris''", THEN conjunct2, THEN conjunct1]
  have r: "fst (withRetry_default refused half)
      = Inl (Some \<lparr> message = Some ''unauthorized'', status = Some 401 \<rparr>)"
    by (simp add: withRetry_default_def withRetry_def withRetry_loop.simps refused_def
        isRateLimited_def isServerError_def)
  have w: "fst (withRetry_default blank_response half) = Inr (Some [CHR 0x0A, CHR 0xA0])"
    by (simp add: withRetry_default_def withRetry_def withRetry_loop.simps blank_response_def)
  have t: "trim [CHR 0x0A, CHR 0xA0] = []"
    by (simp add: trim_def is_space_def js_whitespace_def)
  have g1: "getLocationSummary refused half ''Paris'' = Inr ''Welcome to Paris!''"
    using refusal r by simp
  have g2: "getLocationSummary blank_response half ''Paris'' = Inr ''Welcome to Paris!''"
    using blank w t by simp
  have m: "messages (initial_state 0) \<noteq> [] \<and> length (messages (initial_state 0)) = 1"
    by (simp add: initial_state_def)
  show ?thesis
    using v g1 g2 refusal
    by (simp add: initial_state_def map_content_def clock_at_def toString.simps digit_char_def)
qed

section \<open>Stale gallery refreshes\<close>

lemma stale_refresh_silent:
  "sessionId \<noteq> activeSessionId s \<Longrightarrow> updateGalleryAndQuestions_resume sessionId s fetched = []"
  by (simp add: updateGalleryAndQuestions_resume_def split: sum.splits prod.splits)

lemma run_update_start:
  "run s (updateGalleryAndQuestions p) =
     s\<lparr>galleryImages := [], isGalleryLoading := True, suggestedQuestions := [],
       activeSessionId := activeSessionId s + 1\<rparr>"
  by (simp add: updateGalleryAndQuestions_def run_def)


lemma run_lucky_start:
  "\<not> isLoading cl \<Longrightarrow> activeSessionId (run s (handleFeelingLucky cl clock)) = activeSessionId s + 1"
  by (simp add: handleFeelingLucky_def run_def)

lemma run_fresh_resume:
  "run s (updateGalleryAndQuestions_resume (activeSessionId s) s (Inr (landmarks, questions)))
     = s\<lparr>suggestedQuestions := questions, galleryImages := landmarks, isGalleryLoading := False\<rparr>"
  by (simp add: updateGalleryAndQuestions_resume_def run_def)

text \<open>
  C1: a refresh whose captured token differs from the active one when its fetches complete
  has no effect at all, so it writes neither the gallery nor the question list. When a
  refresh with token \<open>n\<close> is overtaken by one with token \<open>n + 1\<close>, the state after both
  have completed, in either order, is the state the newer one alone produces: its
  landmarks and questions when it succeeds. A "random location" click overtakes a refresh
  in the same way.
\<close>

theorem stale_refresh_discarded:
  "(sessionId \<noteq> activeSessionId s \<longrightarrow>
      updateGalleryAndQuestions_resume sessionId s fetched = []
      \<and> run s (updateGalleryAndQuestions_resume sessionId s fetched) = s)
   \<and> (let n = new_sessionId s0;
           s1 = run s0 (updateGalleryAndQuestions p);
           n' = new_sessionId s1;
           s2 = run s1 (updateGalleryAndQuestions p');
           only_new = run s2 (updateGalleryAndQuestions_resume n' s2 fetched');
           s3 = run s2 (updateGalleryAndQuestions_resume n s2 fetched);
           old_first = run s3 (updateGalleryAndQuestions_resume n' s3 fetched');
           old_last = run only_new (updateGalleryAndQuestions_resume n only_new fetched);
           lucky = run s1 (handleFeelingLucky cl clock)
       in n' = n + 1 \<and> old_first = only_new \<and> old_last = only_new
          \<and> (\<forall>landmarks questions. fetched' = Inr (landmarks, questions) \<longrightarrow>
                galleryImages only_new = landmarks \<and> suggestedQuestions only_new = questions)
          \<and> (\<not> isLoading cl \<longrightarrow> updateGalleryAndQuestions_resume n lucky fetched = []))"
proof -
  define n where "n = new_sessionId s0"
  define s1 where "s1 = run s0 (updateGalleryAndQuestions p)"
  define n' where "n' = new_sessionId s1"
  define s2 where "s2 = run s1 (updateGalleryAndQuestions p')"
  define only_new where "only_new = run s2 (updateGalleryAndQuestions_resume n' s2 fetched')"
  define s3 where "s3 = run s2 (updateGalleryAndQuestions_resume n s2 fetched)"
  define old_first where "old_first = run s3 (updateGalleryAndQuestions_resume n' s3 fetched')"
  define old_last where "old_last = run only_new (updateGalleryAndQuestions_resume n only_new fetched)"
  define lucky where "lucky = run s1 (handleFeelingLucky cl clock)"
  have a1: "activeSessionId s1 = n" by (simp add: s1_def n_def new_sessionId_def run_update_start)
  have n': "n' = n + 1" by (simp add: n'_def new_sessionId_def a1)
  have a2: "activeSessionId s2 = n'" by (simp add: s2_def n'_def new_sessionId_def run_update_start)
  have s3: "s3 = s2" using a2 n' by (simp add: s3_def stale_refresh_silent run_Nil)
  have a_new: "activeSessionId only_new = n'"
    by (simp add: only_new_def updateGalleryAndQuestions_resume_def run_def a2 split: sum.splits prod.splits)
  have first: "old_first = only_new" by (simp add: old_first_def only_new_def s3)
  have last: "old_last = only_new" using a_new n' by (simp add: old_last_def stale_refresh_silent run_Nil)
  have res: "galleryImages only_new = landmarks \<and> suggestedQuestions only_new = questions"
    if "fetched' = Inr (landmarks, questions)" for landmarks questions
    using that a2 run_fresh_resume[of s2 landmarks questions] by (simp add: only_new_def)
  have lk: "updateGalleryAndQuestions_resume n lucky fetched = []" if "\<not> isLoading cl"
    using run_lucky_start[OF that, of s1 clock] a1 by (simp add: lucky_def stale_refresh_silent)
  have stale: "sessionId \<noteq> activeSessionId s \<longrightarrow>
      updateGalleryAndQuestions_resume sessionId s fetched = []
      \<and> run s (updateGalleryAndQuestions_resume sessionId s fetched) = s"
    by (simp add: stale_refresh_silent run_Nil)
  show ?thesis
    unfolding Let_def
    using stale n' first last res lk
    unfolding n_def s1_def n'_def s2_def only_new_def s3_def old_first_def old_last_def lucky_def
    by blast
qed

text \<open>
  An instance: with Paris (token 1) overtaken by Rome (token 2), the result for Paris is
  dropped and the result for Rome is shown.
\<close>

theorem stale_refresh_discarded_witness:
  "1 \<noteq> activeSessionId two_refreshes
   \<and> \<not> isLoading (initial_state 0)
   \<and> updateGalleryAndQuestions_resume 1 two_refreshes (Inr ([tower], [''How old is it?''])) = []
   \<and> galleryImages (run two_refreshes
        (updateGalleryAndQuestions_resume 2 two_refreshes (Inr ([forum], [''Who built it?''])))) = [forum]
   \<and> suggestedQuestions (run two_refreshes
        (updateGalleryAndQuestions_resume 2 two_refreshes (Inr ([forum], [''Who built it?''])))) = [''Who built it?'']"
  using stale_refresh_discarded[where sessionId = 1 and s = two_refreshes
      and fetched = "Inr ([tower], [''How old is it?''])"
      and ?s0.0 = "initial_state 0" and p = "''Paris''" and p' = "''Rome''"
      and fetched' = "Inr ([forum], [''Who built it?''])"
      and cl = "initial_state 0" and clock = "clock_at 5"]
  by (simp add: two_refreshes_def initial_state_def updateGalleryAndQuestions_def
      updateGalleryAndQuestions_resume_def run_def new_sessionId_def Let_def)

section \<open>Coordinate validation and the busy flag in \<open>jumpTo\<close>\<close>

text \<open>
  C2, as the code has it: \<open>isValidCoord\<close> rejects NaN only. A call of \<open>jumpTo\<close> in which
  either coordinate is NaN has no effect: it calls no state setter, leaves the session
  counter alone and starts no request, so every part of the state is unchanged.
\<close>

theorem jumpTo_rejects_NaN:
  "isNaN plat \<or> isNaN plng \<Longrightarrow>
     jumpTo cl clock pname plat plng isNavigating = []
     \<and> jumpTo_effects cl clock pname plat plng isNavigating fetched = []
     \<and> run s (jumpTo_effects cl clock pname plat plng isNavigating fetched) = s"
  by (auto simp: jumpTo_def jumpTo_effects_def run_def)

theorem jumpTo_rejects_NaN_witness:
  "isNaN NaN
   \<and> jumpTo (initial_state 0) (clock_at 5) ''Nowhere'' NaN (Finite 2) False = []
   \<and> jumpTo_effects (initial_state 0) (clock_at 5) ''Nowhere'' NaN (Finite 2) False (Inr ''A place.'') = []
   \<and> run (initial_state 0)
        (jumpTo_effects (initial_state 0) (clock_at 5) ''Nowhere'' NaN (Finite 2) False (Inr ''A place.''))
      = initial_state 0"
  using jumpTo_rejects_NaN[of NaN "Finite 2" "initial_state 0" "clock_at 5" "''Nowhere''" False
      "Inr ''A place.''" "initial_state 0"]
  by (simp add: run_def)

text \<open>
  C2 as stated fails for the infinities: a jump to latitude \<open>+Infinity\<close> passes the
  validation, moves the map centre, appends to the navigation history and starts the
  gallery and summary requests.
\<close>

theorem jumpTo_accepts_Infinity:
  "mapCenter (run (initial_state 0)
       (jumpTo (initial_state 0) (clock_at 5) ''Nowhere'' PosInfinity (Finite 2) False))
     = (PosInfinity, Finite 2)
   \<and> navHistory (run (initial_state 0)
       (jumpTo (initial_state 0) (clock_at 5) ''Nowhere'' PosInfinity (Finite 2) False))
     = [\<lparr> name = ''Vashon Island'', lat = Finite 47.4517, lng = Finite (-122.4631) \<rparr>,
        \<lparr> name = ''Nowhere'', lat = PosInfinity, lng = Finite 2 \<rparr>]
   \<and> Call (ReqLocationSummary ''Nowhere'')
       \<in> set (jumpTo (initial_state 0) (clock_at 5) ''Nowhere'' PosInfinity (Finite 2) False)
   \<and> Call (ReqVisualKeywords ''Nowhere'')
       \<in> set (jumpTo (initial_state 0) (clock_at 5) ''Nowhere'' PosInfinity (Finite 2) False)"
  by (simp add: jumpTo_def updateGalleryAndQuestions_def run_def initial_state_def slice_to_def Let_def)

text \<open>
  C6: among all the effects of an invocation of \<open>jumpTo\<close> that passes the validation, the
  busy flag is written exactly twice, first set and then cleared, however the summary
  request settles; it is set when \<open>jumpTo\<close> reaches its \<open>await\<close> and clear when \<open>jumpTo\<close> is
  done.
\<close>

theorem jumpTo_busy_flag:
  "isValidCoord (Num plat) \<and> isValidCoord (Num plng) \<Longrightarrow>
     filter is_SetIsLoading (jumpTo_effects cl clock pname plat plng isNavigating fetched)
       = [SetIsLoading True, SetIsLoading False]
     \<and> isLoading (run s (jumpTo cl clock pname plat plng isNavigating))
     \<and> \<not> isLoading (run s (jumpTo_effects cl clock pname plat plng isNavigating fetched))"
  by (cases fetched)
     (simp_all add: jumpTo_effects_def jumpTo_def jumpTo_resume_def updateGalleryAndQuestions_def
        run_def Let_def)

theorem jumpTo_busy_flag_witness:
  "isValidCoord (Num (lat paris)) \<and> isValidCoord (Num (lng paris))
   \<and> filter is_SetIsLoading
        (jumpTo_effects (initial_state 0) (clock_at 5) ''Paris'' (lat paris) (lng paris) False (Inl None))
       = [SetIsLoading True, SetIsLoading False]
   \<and> filter is_SetIsLoading
        (jumpTo_effects (initial_state 0) (clock_at 5) ''Paris'' (lat paris) (lng paris) True (Inr ''A city.''))
       = [SetIsLoading True, SetIsLoading False]"
  using jumpTo_busy_flag[of "lat paris" "lng paris" "initial_state 0" "clock_at 5" "''Paris''" False
      "Inl None" "initial_state 0"]
    jumpTo_busy_flag[of "lat paris" "lng paris" "initial_state 0" "clock_at 5" "''Paris''" True
      "Inr ''A city.''" "initial_state 0"]
  by (simp add: paris_def)

section \<open>The busy guard of the handlers\<close>

text \<open>
  C10: invoked from a render in which \<open>isLoading\<close> is true, \<open>handleMapClick\<close>, \<open>handleSend\<close>
  and \<open>handleFeelingLucky\<close> have no effect, and \<open>handleLocationSearch\<close> does nothing but
  \<open>e.preventDefault()\<close> on the event it was given: no state is written and no request is
  sent. \<open>handleBack\<close> and \<open>handleForward\<close> do not read the flag, and still navigate when
  there is an entry to go to.
\<close>

theorem busy_guard:
  "isLoading cl \<Longrightarrow>
     handleLocationSearch cl e customQuery = (if e then [PreventDefault] else [])
     \<and> filter is_mutation (handleLocationSearch cl e customQuery) = []
     \<and> filter is_call (handleLocationSearch cl e customQuery) = []
     \<and> run s (handleLocationSearch cl e customQuery) = s
     \<and> handleMapClick cl plat plng = []
     \<and> handleSend cl clock customInput = []
     \<and> handleFeelingLucky cl clock = []
     \<and> handleBack (cl\<lparr>isLoading := False\<rparr>) clock = handleBack cl clock
     \<and> handleForward (cl\<lparr>isLoading := False\<rparr>) clock = handleForward cl clock
     \<and> (0 < historyIndex cl \<longrightarrow> fst (handleBack cl clock) \<noteq> [])
     \<and> (historyIndex cl < int (length (navHistory cl)) - 1 \<longrightarrow> fst (handleForward cl clock) \<noteq> [])"
  by (auto simp: handleLocationSearch_def handleMapClick_def handleSend_def handleFeelingLucky_def
        handleBack_def handleForward_def jumpTo_def run_def Let_def split: option.splits)

theorem busy_guard_witness:
  "isLoading busy
   \<and> 0 < historyIndex busy
   \<and> historyIndex busy < int (length (navHistory busy)) - 1
   \<and> handleLocationSearch busy True (Some ''Lima'') = [PreventDefault]
   \<and> handleMapClick busy (lat lima) (lng lima) = []
   \<and> handleSend busy (clock_at 5) (Some ''hello'') = []
   \<and> handleFeelingLucky busy (clock_at 5) = []
   \<and> fst (handleBack busy (clock_at 5)) \<noteq> []
   \<and> fst (handleForward busy (clock_at 5)) \<noteq> []"
proof -
  have h: "isLoading busy" by (simp add: busy_def)
  have i: "0 < historyIndex busy \<and> historyIndex busy < int (length (navHistory busy)) - 1"
    by (simp add: busy_def browsing_def)
  from busy_guard[OF h, of True "Some ''Lima''" busy "lat lima" "lng lima" "clock_at 5" "Some ''hello''"]
    h i show ?thesis by simp
qed

section \<open>Navigation history\<close>

lemma nav_jumpTo:
  "navHistory (run s (jumpTo cl clock pname plat plng isNavigating)) =
     (if isNaN plat \<or> isNaN plng \<or> isNavigating then navHistory s
      else slice_to (historyIndex cl + 1) (navHistory cl) @ [\<lparr> name = pname, lat = plat, lng = plng \<rparr>])"
  by (simp add: jumpTo_def updateGalleryAndQuestions_def run_def Let_def)

lemma idx_jumpTo:
  "historyIndex (run s (jumpTo cl clock pname plat plng isNavigating)) =
     (if isNaN plat \<or> isNaN plng \<or> isNavigating then historyIndex s
      else int (length (slice_to (historyIndex cl + 1) (navHistory cl))))"
  by (simp add: jumpTo_def updateGalleryAndQuestions_def run_def Let_def)

lemma nav_resume:
  "navHistory (run s (fst (jumpTo_resume w pname fetched))) = navHistory s
   \<and> historyIndex (run s (fst (jumpTo_resume w pname fetched))) = historyIndex s"
  by (cases fetched) (simp_all add: jumpTo_resume_def run_def)

lemma nav_inv_jumpTo:
  "nav_inv s \<Longrightarrow> nav_inv cl \<Longrightarrow> nav_inv (run s (jumpTo cl clock pname plat plng isNavigating))"
  by (simp add: nav_inv_def nav_jumpTo idx_jumpTo)

lemma back_state:
  "nav_inv s \<Longrightarrow>
     snd (handleBack s clock) = None
     \<and> navHistory (run s (fst (handleBack s clock))) = navHistory s
     \<and> historyIndex (run s (fst (handleBack s clock)))
         = (if historyIndex s > 0 then historyIndex s - 1 else historyIndex s)"
  by (auto simp: handleBack_def nav_inv_def index_at_def run_Cons run_Nil nav_jumpTo idx_jumpTo)

lemma forward_state:
  "nav_inv s \<Longrightarrow>
     snd (handleForward s clock) = None
     \<and> navHistory (run s (fst (handleForward s clock))) = navHistory s
     \<and> historyIndex (run s (fst (handleForward s clock)))
         = (if historyIndex s < int (length (navHistory s)) - 1 then historyIndex s + 1 else historyIndex s)"
  by (auto simp: handleForward_def nav_inv_def index_at_def run_Cons run_Nil nav_jumpTo idx_jumpTo)

text \<open>
  C4: the first render satisfies \<open>0 \<le> historyIndex < navHistory.length\<close>, and from a state
  that does (whose history is then non-empty) so does the state after \<open>handleBack\<close>, after
  \<open>handleForward\<close>, after \<open>jumpTo\<close> (also when \<open>jumpTo\<close> runs from an older render that
  satisfied it) and after the continuation of \<open>jumpTo\<close>. \<open>handleBack\<close> decrements the
  cursor exactly when it is positive, \<open>handleForward\<close> increments it exactly when it is
  below the last index, neither changes the entries nor throws, and a fresh \<open>jumpTo\<close> with
  valid coordinates leaves the cursor on the entry it appended last.
\<close>

theorem nav_history_invariant:
  "nav_inv (initial_state now)
   \<and> (nav_inv s \<longrightarrow>
        navHistory s \<noteq> []
        \<and> snd (handleBack s clock) = None
        \<and> nav_inv (run s (fst (handleBack s clock)))
        \<and> navHistory (run s (fst (handleBack s clock))) = navHistory s
        \<and> historyIndex (run s (fst (handleBack s clock)))
            = (if historyIndex s > 0 then historyIndex s - 1 else historyIndex s)
        \<and> snd (handleForward s clock) = None
        \<and> nav_inv (run s (fst (handleForward s clock)))
        \<and> navHistory (run s (fst (handleForward s clock))) = navHistory s
        \<and> historyIndex (run s (fst (handleForward s clock)))
            = (if historyIndex s < int (length (navHistory s)) - 1 then historyIndex s + 1
               else historyIndex s)
        \<and> nav_inv (run s (fst (jumpTo_resume w pname fetched)))
        \<and> (nav_inv cl \<longrightarrow>
              nav_inv (run s (jumpTo cl clock pname plat plng isNavigating))
              \<and> (isValidCoord (Num plat) \<and> isValidCoord (Num plng) \<and> \<not> isNavigating \<longrightarrow>
                   navHistory (run s (jumpTo cl clock pname plat plng isNavigating))
                     = take (nat (historyIndex cl) + 1) (navHistory cl)
                       @ [\<lparr> name = pname, lat = plat, lng = plng \<rparr>]
                   \<and> historyIndex (run s (jumpTo cl clock pname plat plng isNavigating))
                     = int (length (navHistory (run s (jumpTo cl clock pname plat plng isNavigating)))) - 1)))"
proof -
  have init: "nav_inv (initial_state now)" by (simp add: nav_inv_def initial_state_def)
  have step: ?thesis if inv: "nav_inv s"
  proof -
    have ne: "navHistory s \<noteq> []" using inv by (auto simp: nav_inv_def)
    have b: "nav_inv (run s (fst (handleBack s clock)))"
      using inv back_state[OF inv, of clock] by (auto simp: nav_inv_def)
    have f: "nav_inv (run s (fst (handleForward s clock)))"
      using inv forward_state[OF inv, of clock] by (auto simp: nav_inv_def)
    have r: "nav_inv (run s (fst (jumpTo_resume w pname fetched)))"
      using inv nav_resume[of s w pname fetched] by (simp add: nav_inv_def)
    have j: "navHistory (run s (jumpTo cl clock pname plat plng isNavigating))
                     = take (nat (historyIndex cl) + 1) (navHistory cl)
                       @ [\<lparr> name = pname, lat = plat, lng = plng \<rparr>]
             \<and> historyIndex (run s (jumpTo cl clock pname plat plng isNavigating))
                     = int (length (navHistory (run s (jumpTo cl clock pname plat plng isNavigating)))) - 1"
      if "nav_inv cl" "isValidCoord (Num plat) \<and> isValidCoord (Num plng) \<and> \<not> isNavigating"
      using that by (simp add: nav_jumpTo idx_jumpTo slice_to_def nav_inv_def nat_add_distrib)
    show ?thesis
      using init ne b f r j back_state[OF inv, of clock] forward_state[OF inv, of clock]
        nav_inv_jumpTo[OF inv, of cl clock pname plat plng isNavigating]
      by blast
  qed
  show ?thesis using init step by blast
qed

theorem nav_history_invariant_witness:
  "nav_inv (browsing 1)
   \<and> isValidCoord (Num (lat lima)) \<and> isValidCoord (Num (lng lima))
   \<and> historyIndex (run (browsing 1) (fst (handleBack (browsing 1) (clock_at 5)))) = 0
   \<and> historyIndex (run (browsing 1) (fst (handleForward (browsing 1) (clock_at 5)))) = 2
   \<and> nav_inv (run (browsing 1) (jumpTo (browsing 1) (clock_at 5) ''Lima'' (lat lima) (lng lima) False))
   \<and> navHistory (run (browsing 1) (jumpTo (browsing 1) (clock_at 5) ''Lima'' (lat lima) (lng lima) False))
       = [paris, rome, lima]
   \<and> historyIndex (run (browsing 1) (jumpTo (browsing 1) (clock_at 5) ''Lima'' (lat lima) (lng lima) False))
       = 2"
proof -
  have inv: "nav_inv (browsing 1)" by (simp add: nav_inv_def browsing_def)
  have valid: "isValidCoord (Num (lat lima)) \<and> isValidCoord (Num (lng lima)) \<and> \<not> False"
    by (simp add: lima_def)
  have lima: "\<lparr> name = ''Lima'', lat = lat lima, lng = lng lima \<rparr> = lima" by (simp add: lima_def)
  show ?thesis
    using inv valid
      nav_history_invariant[where s = "browsing 1" and cl = "browsing 1" and clock = "clock_at 5"
        and pname = "''Lima''" and plat = "lat lima" and plng = "lng lima" and isNavigating = False]
    by (simp add: lima) (simp add: browsing_def)
qed

text \<open>
  A fresh \<open>jumpTo\<close> that runs from the render following the \<open>handleBack\<close> (as when the
  handler calling it started after the click on the back button): from the history
  \<open>[A, B, C]\<close> with the cursor at index 2, \<open>handleBack\<close> moves the cursor to 1 and keeps the
  entries, and the \<open>jumpTo\<close> to a place \<open>D\<close> with valid coordinates then gives \<open>[A, B, D]\<close>
  with the cursor at 2, whether or not the summary requests of the two jumps have settled.
\<close>

theorem history_truncation:
  "navHistory s = [A, B, C] \<and> historyIndex s = 2
   \<and> isValidCoord (Num (lat D)) \<and> isValidCoord (Num (lng D)) \<Longrightarrow>
   (let s1 = run s (fst (handleBack s clock));
        s2 = run s1 (fst (jumpTo_resume (toString (clock 0)) (name B) fetched));
        s3 = run s2 (jumpTo s2 clock' (name D) (lat D) (lng D) False);
        s4 = run s3 (fst (jumpTo_resume (toString (clock' 0)) (name D) fetched'))
    in navHistory s1 = [A, B, C] \<and> historyIndex s1 = 1
       \<and> navHistory s3 = [A, B, D] \<and> historyIndex s3 = 2
       \<and> navHistory s4 = [A, B, D] \<and> historyIndex s4 = 2
       \<and> navHistory (run s1 (jumpTo s1 clock' (name D) (lat D) (lng D) False)) = [A, B, D]
       \<and> historyIndex (run s1 (jumpTo s1 clock' (name D) (lat D) (lng D) False)) = 2)"
proof -
  assume a: "navHistory s = [A, B, C] \<and> historyIndex s = 2
   \<and> isValidCoord (Num (lat D)) \<and> isValidCoord (Num (lng D))"
  then have inv: "nav_inv s" by (simp add: nav_inv_def)
  have D: "\<lparr> name = name D, lat = lat D, lng = lng D \<rparr> = D" by simp
  show ?thesis
    using a back_state[OF inv, of clock]
    by (simp add: Let_def nav_resume nav_jumpTo idx_jumpTo slice_to_def D)
qed

theorem history_truncation_witness:
  "navHistory (browsing 2) = [paris, rome, cairo] \<and> historyIndex (browsing 2) = 2
   \<and> isValidCoord (Num (lat lima)) \<and> isValidCoord (Num (lng lima))
   \<and> historyIndex (run (browsing 2) (fst (handleBack (browsing 2) (clock_at 5)))) = 1
   \<and> navHistory (run (run (browsing 2) (fst (handleBack (browsing 2) (clock_at 5))))
        (jumpTo (run (browsing 2) (fst (handleBack (browsing 2) (clock_at 5)))) (clock_at 9)
           (name lima) (lat lima) (lng lima) False))
       = [paris, rome, lima]
   \<and> historyIndex (run (run (browsing 2) (fst (handleBack (browsing 2) (clock_at 5))))
        (jumpTo (run (browsing 2) (fst (handleBack (browsing 2) (clock_at 5)))) (clock_at 9)
           (name lima) (lat lima) (lng lima) False))
       = 2"
proof -
  have pre: "navHistory (browsing 2) = [paris, rome, cairo] \<and> historyIndex (browsing 2) = 2
     \<and> isValidCoord (Num (lat lima)) \<and> isValidCoord (Num (lng lima))"
    by (simp add: browsing_def lima_def)
  show ?thesis
    using pre history_truncation[OF pre, of "clock_at 5" "Inl None" "clock_at 9" "Inl None"]
    by (simp add: Let_def)
qed

text \<open>
  C5 on the code: \<open>jumpTo\<close> computes the new history from the \<open>navHistory\<close> and
  \<open>historyIndex\<close> of the render its caller closed over. A "random location" click at
  \<open>[Paris, Rome, Cairo]\<close>, cursor 2, followed by \<open>handleBack\<close> (which the busy flag does not
  block) while the gateway has not answered, moves the cursor to 1; the fresh \<open>jumpTo\<close> to
  Lima that the continuation of the click then performs still truncates after index 2,
  and gives \<open>[Paris, Rome, Cairo, Lima]\<close> with the cursor at 3 instead of
  \<open>[Paris, Rome, Lima]\<close> with the cursor at 2: Cairo is not discarded.
\<close>

theorem stale_jump_keeps_forward_entry:
  "navHistory (browsing 2) = [paris, rome, cairo] \<and> historyIndex (browsing 2) = 2
   \<and> \<not> isLoading (browsing 2)
   \<and> isValidCoord (Num (lat lima)) \<and> isValidCoord (Num (lng lima))
   \<and> navHistory lucky_then_back = [paris, rome, cairo] \<and> historyIndex lucky_then_back = 1
   \<and> navHistory lucky_answered = [paris, rome, cairo, lima] \<and> historyIndex lucky_answered = 3"
proof -
  have b: "navHistory (browsing 2) = [paris, rome, cairo] \<and> historyIndex (browsing 2) = 2
      \<and> \<not> isLoading (browsing 2)"
    by (simp add: browsing_def initial_state_def)
  have v: "isValidCoord (Num (lat lima)) \<and> isValidCoord (Num (lng lima))"
    by (simp add: lima_def)
  have p: "navHistory lucky_pending = [paris, rome, cairo] \<and> historyIndex lucky_pending = 2"
    using b by (simp add: lucky_pending_def handleFeelingLucky_def run_def)
  then have inv: "nav_inv lucky_pending" by (simp add: nav_inv_def)
  have k: "navHistory lucky_then_back = [paris, rome, cairo] \<and> historyIndex lucky_then_back = 1"
    using back_state[OF inv, of "clock_at 2000"] p by (simp add: lucky_then_back_def)
  have lima: "\<lparr> name = name lima, lat = lat lima, lng = lng lima \<rparr> = lima" by simp
  have a: "navHistory lucky_answered = [paris, rome, cairo, lima] \<and> historyIndex lucky_answered = 3"
    using b v
    by (simp add: lucky_answered_def handleFeelingLucky_resume_def run_Cons nav_jumpTo idx_jumpTo
        slice_to_def lima)
  show ?thesis using b v k a by simp
qed

section \<open>The list of places already suggested\<close>

lemma slice_last_length: "length (slice_last n xs) = min n (length xs)"
  by (simp add: slice_last_def)

lemma slice_last_snoc: "slice_last n xs @ [x] = slice_last (Suc n) (xs @ [x])"
  by (simp add: slice_last_def Suc_diff_le)

lemma slice_last_slice_last: "n \<le> m \<Longrightarrow> slice_last n (slice_last m xs) = slice_last n xs"
proof -
  assume "n \<le> m"
  then have "length xs - (length xs - m + n) + (length xs - m) = length xs - n" by arith
  then show ?thesis by (simp add: slice_last_def)
qed

text \<open>One append leaves at most 21 entries, and exactly 21 once the list held 20.\<close>

lemma seen_append_length:
  "length (seenHistory (apply_action (AppendSeenHistory n) s)) = min 20 (length (seenHistory s)) + 1"
  by (simp add: slice_last_length)

lemma seen_jumpTo: "seenHistory (run s (jumpTo cl clock pname plat plng isNavigating)) = seenHistory s"
  by (simp add: jumpTo_def updateGalleryAndQuestions_def run_def Let_def)

lemma loading_jumpTo_resume: "\<not> isLoading (run s (fst (jumpTo_resume w pname fetched)))"
  by (cases fetched) (simp_all add: jumpTo_resume_def run_def)

lemma seen_jumpTo_resume: "seenHistory (run s (fst (jumpTo_resume w pname fetched))) = seenHistory s"
  by (cases fetched) (simp_all add: jumpTo_resume_def run_def)

lemma seen_lucky_start: "seenHistory (run s (handleFeelingLucky cl clock)) = seenHistory s"
  by (simp add: handleFeelingLucky_def run_def)

lemma lucky_round_seen:
  "\<not> isLoading s \<Longrightarrow> \<not> isNaN glat \<Longrightarrow> \<not> isNaN glng \<Longrightarrow>
   seenHistory (lucky_round s (t, gname, glat, glng)) = slice_last 20 (seenHistory s) @ [gname]"
  by (simp add: lucky_round_def Let_def seen_jumpTo_resume handleFeelingLucky_resume_def
      run_Cons seen_jumpTo seen_lucky_start)

lemma lucky_round_idle: "\<not> isLoading s \<Longrightarrow> \<not> isLoading (lucky_round s r)"
  by (cases r) (simp add: lucky_round_def Let_def loading_jumpTo_resume)

lemma lucky_rounds_idle: "\<not> isLoading s \<Longrightarrow> \<not> isLoading (foldl lucky_round s rounds)"
  by (induction rounds rule: rev_induct) (simp_all add: lucky_round_idle)

text \<open>
  After any positive number of successful rounds the list holds the last 21 of the names
  it was given, the initial ones included: each round keeps the last 20 and appends one.
\<close>

lemma lucky_rounds_seen:
  "\<not> isLoading s \<Longrightarrow> rounds \<noteq> [] \<Longrightarrow>
   \<forall>r \<in> set rounds. \<not> isNaN (fst (snd (snd r))) \<and> \<not> isNaN (snd (snd (snd r))) \<Longrightarrow>
   seenHistory (foldl lucky_round s rounds)
     = slice_last 21 (seenHistory s @ map (\<lambda>r. fst (snd r)) rounds)"
proof (induction rounds rule: rev_induct)
  case Nil
  then show ?case by simp
next
  case (snoc r rounds)
  obtain t gname glat glng where r: "r = (t, gname, glat, glng)" by (cases r)
  have v: "\<not> isNaN glat" "\<not> isNaN glng" using snoc.prems(3) r by auto
  have idle: "\<not> isLoading (foldl lucky_round s rounds)"
    using snoc.prems(1) by (rule lucky_rounds_idle)
  show ?case
  proof (cases "rounds = []")
    case True
    then show ?thesis using v r snoc.prems(1)
      by (simp add: lucky_round_seen slice_last_snoc numeral_eq_Suc)
  next
    case False
    have "seenHistory (foldl lucky_round s rounds)
        = slice_last 21 (seenHistory s @ map (\<lambda>r. fst (snd r)) rounds)"
      using snoc.IH[OF snoc.prems(1) False] snoc.prems(3) by simp
    then show ?thesis using v r idle
      by (simp add: lucky_round_seen slice_last_slice_last)
         (metis append_assoc eval_nat_numeral(3) slice_last_snoc)
  qed
qed

text \<open>
  C3 on the code: after 25 consecutive successful "random location" results from the first
  render, \<open>seenHistory\<close> holds 21 names, the places 5 to 25, and not 20.
\<close>

theorem seenHistory_after_25_rounds:
  "seenHistory (foldl lucky_round (initial_state 0) (map numbered_round [1..<26]))
     = map toString [5..<26]
   \<and> length (seenHistory (foldl lucky_round (initial_state 0) (map numbered_round [1..<26])))
     = 21"
proof -
  have idle: "\<not> isLoading (initial_state 0)" by (simp add: initial_state_def)
  have ne: "map numbered_round [1..<26] \<noteq> []" by simp
  have valid: "\<forall>r \<in> set (map numbered_round [1..<26]).
      \<not> isNaN (fst (snd (snd r))) \<and> \<not> isNaN (snd (snd (snd r)))"
    by (simp add: numbered_round_def)
  have names: "map (\<lambda>r. fst (snd r)) (map numbered_round [1..<26]) = map toString [1..<26]"
    by (simp add: numbered_round_def comp_def)
  have "seenHistory (foldl lucky_round (initial_state 0) (map numbered_round [1..<26]))
      = slice_last 21 (seenHistory (initial_state 0) @ map toString [1..<26])"
    using lucky_rounds_seen[OF idle ne valid] by (simp only: names)
  also have "\<dots> = map toString [5..<26]"
    by (simp add: initial_state_def slice_last_def drop_map)
  finally show ?thesis by simp
qed

section \<open>Message identifiers\<close>

lemma digit_char_inj: "a < 10 \<Longrightarrow> b < 10 \<Longrightarrow> digit_char a = digit_char b \<Longrightarrow> a = b"
proof -
  assume a: "a < 10" and b: "b < 10" and e: "digit_char a = digit_char b"
  have A: "a \<in> {0,1,2,3,4,5,6,7,8,9}" using a by auto
  have B: "b \<in> {0,1,2,3,4,5,6,7,8,9}" using b by auto
  show ?thesis using A B e by (auto simp: digit_char_def)
qed

lemma toString_length: "length (toString n) = (if n < 10 then 1 else Suc (length (toString (n div 10))))"
  by (subst toString.simps) simp

lemma toString_inj: "toString n = toString m \<Longrightarrow> n = m"
proof (induction n arbitrary: m rule: toString.induct)
  case (1 n)
  show ?case
  proof (cases "n < 10")
    case n: True
    show ?thesis
    proof (cases "m < 10")
      case True
      then show ?thesis using n "1.prems" digit_char_inj[of n m]
        by (simp add: toString.simps[of n] toString.simps[of m])
    next
      case False
      then have "length (toString m) \<ge> 2" by (subst toString_length) (simp add: toString_length[of "m div 10"])
      moreover have "length (toString n) = 1" using n by (simp add: toString_length)
      ultimately show ?thesis using "1.prems" by simp
    qed
  next
    case n: False
    show ?thesis
    proof (cases "m < 10")
      case True
      have "length (toString n) \<ge> 2" using n by (subst toString_length) (simp add: toString_length[of "n div 10"])
      moreover have "length (toString m) = 1" using True by (simp add: toString_length)
      ultimately show ?thesis using "1.prems" by simp
    next
      case False
      have "toString (n div 10) @ [digit_char (n mod 10)] = toString (m div 10) @ [digit_char (m mod 10)]"
        using "1.prems" n False by (simp add: toString.simps[of n] toString.simps[of m])
      then have q: "toString (n div 10) = toString (m div 10)" and d: "digit_char (n mod 10) = digit_char (m mod 10)"
        by simp_all
      have "n div 10 = m div 10" using "1.IH"[OF n q] .
      moreover have "n mod 10 = m mod 10" using d digit_char_inj[of "n mod 10" "m mod 10"] by simp
      ultimately show ?thesis by (metis div_mult_mod_eq)
    qed
  qed
qed

lemma map_content_unique:
  "distinct (map msg_id ms) \<Longrightarrow> m \<in> set ms \<Longrightarrow> msg_id m = w \<Longrightarrow>
   \<exists>pre post. ms = pre @ m # post \<and> map_content w c ms = pre @ m\<lparr>content := c\<rparr> # post"
proof -
  assume d: "distinct (map msg_id ms)" and m: "m \<in> set ms" and w: "msg_id m = w"
  from m obtain pre post where ms: "ms = pre @ m # post" by (meson split_list)
  have "w \<notin> msg_id ` set pre" "w \<notin> msg_id ` set post" using d ms w by auto
  then have "\<forall>x \<in> set pre \<union> set post. msg_id x \<noteq> w" by blast
  then have "map_content w c pre = pre" "map_content w c post = post"
    by (simp_all add: map_content_def map_idI)
  then have "map_content w c ms = pre @ m\<lparr>content := c\<rparr> # post"
    using ms w by (simp add: map_content_def)
  with ms show ?thesis by blast
qed

lemma appended_ids_append: "appended_ids (xs @ ys) = appended_ids xs @ appended_ids ys"
  by (induction xs rule: appended_ids.induct) simp_all

lemma appended_ids_jumpTo:
  "appended_ids (jumpTo cl clock pname plat plng isNavigating) =
     (if isValidCoord (Num plat) \<and> isValidCoord (Num plng) then [toString (clock 0)] else [])"
  by (simp add: jumpTo_def updateGalleryAndQuestions_def Let_def appended_ids_append)

lemma appended_ids_resume: "appended_ids (fst (jumpTo_resume w pname fetched)) = []"
  by (cases fetched) (simp_all add: jumpTo_resume_def)

lemma map_content_resume:
  "distinct (map msg_id (messages s)) \<Longrightarrow> m \<in> set (messages s) \<Longrightarrow>
   \<exists>pre post c. messages s = pre @ m # post
      \<and> messages (run s (fst (jumpTo_resume (msg_id m) pname fetched))) = pre @ m\<lparr>content := c\<rparr> # post"
proof -
  assume d: "distinct (map msg_id (messages s))" and m: "m \<in> set (messages s)"
  define c where "c = (case fetched of
          Inr summary \<Rightarrow> ''Warped to '' @ pname @ ''!'' @ [CHR 0x0A, CHR 0x0A] @ summary
        | Inl e \<Rightarrow> ''Warped to '' @ pname @ ''! Ready to explore.'')"
  from map_content_unique[OF d m refl, of c] obtain pre post where
    "messages s = pre @ m # post" "map_content (msg_id m) c (messages s) = pre @ m\<lparr>content := c\<rparr> # post"
    by blast
  then show ?thesis by (auto simp: msgs_resume c_def)
qed

text \<open>
  C9, as the code has it. Every message a handler appends gets an identifier made from
  \<open>Date.now()\<close> at its creation: its decimal text, and for the reply that \<open>handleSend\<close>
  appends the decimal text of \<open>Date.now() + 1\<close> (\<open>handleReturnHome\<close> and
  \<open>handleDiscoveryQuestion\<close> append through \<open>jumpTo\<close> and \<open>handleSend\<close>); the welcome message
  has the identifier \<open>1\<close>. Two identifiers are equal exactly when the numbers they are
  made from are, and nothing keeps those apart. In a transcript whose identifiers are
  pairwise distinct, the in-place update aimed at the identifier of a message \<open>m\<close>, and so
  the update of its placeholder by \<open>jumpTo\<close>, replaces the content of \<open>m\<close> and leaves every
  message before and after it, the newer ones included, as it was.
\<close>

theorem placeholder_update_unique:
  "(distinct (map msg_id (messages s)) \<and> m \<in> set (messages s) \<longrightarrow>
      (\<exists>pre post. messages s = pre @ m # post
         \<and> messages (apply_action (MapMessageContent (msg_id m) c) s) = pre @ m\<lparr>content := c\<rparr> # post)
      \<and> (\<exists>pre post c'. messages s = pre @ m # post
         \<and> messages (run s (fst (jumpTo_resume (msg_id m) pname fetched)))
             = pre @ m\<lparr>content := c'\<rparr> # post))
   \<and> (isValidCoord (Num plat) \<and> isValidCoord (Num plng) \<longrightarrow>
        messages (run s (jumpTo cl clock pname plat plng isNavigating)) =
          messages s @ [\<lparr> msg_id = toString (clock 0), role = Assistant,
             content = ''Warping to '' @ pname @ ''...'', timestamp = clock 1,
             sources = None, locationData = None \<rparr>])
   \<and> map msg_id (messages (initial_state now)) = [''1'']
   \<and> appended_ids (jumpTo cl clock pname plat plng isNavigating)
        = (if isValidCoord (Num plat) \<and> isValidCoord (Num plng) then [toString (clock 0)] else [])
   \<and> set (appended_ids (handleSend cl clock customInput)) \<subseteq> {toString (clock 0)}
   \<and> set (appended_ids (handleSend_resume clock answered)) \<subseteq> {toString (clock 0 + 1)}
   \<and> set (appended_ids (handleFeelingLucky cl clock)) \<subseteq> {toString (clock 0)}
   \<and> set (appended_ids (handleFeelingLucky_resume notify cl clock loadingId found)) \<subseteq> {toString (clock 0)}
   \<and> set (appended_ids (handleLocationSearch_resume cl clock query geocoded)) \<subseteq> {toString (clock 0)}
   \<and> set (appended_ids (handleMapClick_resume cl clock reversed)) \<subseteq> {toString (clock 0)}
   \<and> set (appended_ids (fst (handleBack cl clock))) \<subseteq> {toString (clock 0)}
   \<and> set (appended_ids (fst (handleForward cl clock))) \<subseteq> {toString (clock 0)}
   \<and> appended_ids (handleLocationSearch cl e customQuery) = []
   \<and> appended_ids (handleMapClick cl plat plng) = []
   \<and> appended_ids (updateGalleryAndQuestions pname) = []
   \<and> appended_ids (updateGalleryAndQuestions_resume sessionId s refreshed) = []
   \<and> appended_ids (fst (jumpTo_resume w pname fetched)) = []
   \<and> appended_ids finally_not_loading = []
   \<and> (toString t = toString t' \<longleftrightarrow> t = t')"
proof -
  have u: "distinct (map msg_id (messages s)) \<and> m \<in> set (messages s) \<longrightarrow>
      (\<exists>pre post. messages s = pre @ m # post
         \<and> messages (apply_action (MapMessageContent (msg_id m) c) s) = pre @ m\<lparr>content := c\<rparr> # post)
      \<and> (\<exists>pre post c'. messages s = pre @ m # post
         \<and> messages (run s (fst (jumpTo_resume (msg_id m) pname fetched)))
             = pre @ m\<lparr>content := c'\<rparr> # post)"
    using map_content_unique[of "messages s" m "msg_id m" c] map_content_resume[of s m pname fetched]
    by auto
  have j: "isValidCoord (Num plat) \<and> isValidCoord (Num plng) \<longrightarrow>
        messages (run s (jumpTo cl clock pname plat plng isNavigating)) =
          messages s @ [\<lparr> msg_id = toString (clock 0), role = Assistant,
             content = ''Warping to '' @ pname @ ''...'', timestamp = clock 1,
             sources = None, locationData = None \<rparr>]"
    using msgs_jumpTo[of plat plng s cl clock pname isNavigating] by auto
  have i: "map msg_id (messages (initial_state now)) = [''1'']" by (simp add: initial_state_def)
  have h1: "set (appended_ids (handleSend cl clock customInput)) \<subseteq> {toString (clock 0)}"
    by (simp add: handleSend_def Let_def appended_ids_append)
  have h2: "set (appended_ids (handleSend_resume clock answered)) \<subseteq> {toString (clock 0 + 1)}"
    by (simp add: handleSend_resume_def split: sum.splits QueryResponse.splits)
  have h3: "set (appended_ids (handleFeelingLucky cl clock)) \<subseteq> {toString (clock 0)}"
    by (simp add: handleFeelingLucky_def)
  have h4: "set (appended_ids (handleFeelingLucky_resume notify cl clock loadingId found)) \<subseteq> {toString (clock 0)}"
    by (auto simp: handleFeelingLucky_resume_def appended_ids_jumpTo
        split: sum.splits option.splits prod.splits if_splits)
  have h5: "set (appended_ids (handleLocationSearch_resume cl clock query geocoded)) \<subseteq> {toString (clock 0)}"
    by (auto simp: handleLocationSearch_resume_def finally_not_loading_def appended_ids_jumpTo
        split: sum.splits option.splits GeocodeResponse.splits if_splits)
  have h6: "set (appended_ids (handleMapClick_resume cl clock reversed)) \<subseteq> {toString (clock 0)}"
    by (auto simp: handleMapClick_resume_def finally_not_loading_def appended_ids_jumpTo
        split: sum.splits option.splits prod.splits if_splits)
  have h7: "set (appended_ids (fst (handleBack cl clock))) \<subseteq> {toString (clock 0)}"
    by (auto simp: handleBack_def appended_ids_jumpTo split: option.splits if_splits)
  have h8: "set (appended_ids (fst (handleForward cl clock))) \<subseteq> {toString (clock 0)}"
    by (auto simp: handleForward_def appended_ids_jumpTo split: option.splits if_splits)
  have n1: "appended_ids (handleLocationSearch cl e customQuery) = []"
    by (simp add: handleLocationSearch_def Let_def appended_ids_append)
  have n2: "appended_ids (handleMapClick cl plat plng) = []"
    by (simp add: handleMapClick_def)
  have n3: "appended_ids (updateGalleryAndQuestions pname) = []"
    by (simp add: updateGalleryAndQuestions_def)
  have n4: "appended_ids (updateGalleryAndQuestions_resume sessionId s refreshed) = []"
    by (simp add: updateGalleryAndQuestions_resume_def appended_ids_append split: sum.splits prod.splits)
  have n5: "appended_ids finally_not_loading = []" by (simp add: finally_not_loading_def)
  have inj: "toString t = toString t' \<longleftrightarrow> t = t'" using toString_inj[of t t'] by auto
  show ?thesis
    using u j i appended_ids_jumpTo[of cl clock pname plat plng isNavigating] h1 h2 h3 h4 h5 h6 h7 h8
      n1 n2 n3 n4 appended_ids_resume[of w pname fetched] n5 inj
    by (intro conjI) assumption+
qed

text \<open>
  An instance: after a jump to Paris at time 5 the identifiers are distinct, the update
  aimed at the placeholder changes it alone, and a reply made at time 5 gets the
  identifier 6.
\<close>

theorem placeholder_update_unique_witness:
  "distinct (map msg_id (messages warped_once))
   \<and> last (messages warped_once) \<in> set (messages warped_once)
   \<and> isValidCoord (Num (lat paris)) \<and> isValidCoord (Num (lng paris))
   \<and> toString 5 = toString 5
   \<and> map msg_id (messages warped_once) = [''1'', ''5'']
   \<and> map content (tl (messages (apply_action (MapMessageContent ''5'' ''Warped.'') warped_once)))
       = [''Warped.'']
   \<and> appended_ids (handleSend_resume (clock_at 5) (Inr (QueryResponse ''A city.'' [] []))) = [''6'']"
proof -
  note inst = placeholder_update_unique[where plat = "lat paris" and plng = "lng paris"
        and s = "initial_state 0" and cl = "initial_state 0" and clock = "clock_at 5"
        and pname = "''Paris''" and isNavigating = False]
  have msgs: "messages warped_once =
      messages (initial_state 0) @ [\<lparr> msg_id = toString (clock_at 5 0), role = Assistant,
             content = ''Warping to '' @ ''Paris'' @ ''...'', timestamp = clock_at 5 1,
             sources = None, locationData = None \<rparr>]"
    using inst[THEN conjunct2, THEN conjunct1]
    by (simp add: warped_once_def paris_def)
  show ?thesis
    by (simp add: msgs initial_state_def clock_at_def toString.simps digit_char_def map_content_def
        paris_def handleSend_resume_def)
qed

text \<open>
  C9 as stated fails: two jumps started within the same millisecond append two
  placeholders with the same identifier, and the update that the first jump aims at its
  own placeholder rewrites both. (The welcome message, created at time 0 here, has the
  identifier \<open>1\<close>.)
\<close>

theorem duplicate_ids_counterexample:
  "map msg_id (messages warped_twice) = [''1'', ''5'', ''5'']
   \<and> map timestamp (messages warped_twice) = [0, 6, 6]
   \<and> \<not> distinct (map msg_id (messages warped_twice))
   \<and> map content (tl (messages warped_twice)) = [''Warping to Paris...'', ''Warping to Rome...'']
   \<and> map content (tl (messages (run warped_twice
         (fst (jumpTo_resume (toString (clock_at 5 0)) ''Paris'' (Inr ''City of light.''))))))
       = [''Warped to Paris!'' @ [CHR 0x0A, CHR 0x0A] @ ''City of light.'',
          ''Warped to Paris!'' @ [CHR 0x0A, CHR 0x0A] @ ''City of light.'']"
  by (simp add: warped_twice_def warped_once_def jumpTo_def jumpTo_resume_def
      updateGalleryAndQuestions_def run_def initial_state_def slice_to_def map_content_def
      toString.simps digit_char_def clock_at_def paris_def rome_def Let_def)

end
